theory Spec2Isabelle
  imports Complex_Main "HOL-Library.Sublist"
begin

section \<open>JavaScript values used by the scaffolder and the facade\<close>

text \<open>
  A JavaScript string is modelled as a \<^typ>\<open>string\<close>: a list of code units below 256.
  Every character class of the source's regular expressions is decided on the numeric
  value of the code unit.
\<close>

definition code_unit :: "char \<Rightarrow> nat" where
  "code_unit c = of_char c"

definition in_range :: "char \<Rightarrow> char \<Rightarrow> char \<Rightarrow> bool" where
  "in_range lo hi c = (code_unit lo \<le> code_unit c \<and> code_unit c \<le> code_unit hi)"

text \<open>\<^verbatim>\<open>[a-zA-Z]\<close>, \<^verbatim>\<open>[0-9]\<close> (also \<^verbatim>\<open>\d\<close>) and \<^verbatim>\<open>\w\<close> = \<^verbatim>\<open>[A-Za-z0-9_]\<close>.\<close>

definition is_alpha :: "char \<Rightarrow> bool" where
  "is_alpha c = (in_range CHR ''a'' CHR ''z'' c \<or> in_range CHR ''A'' CHR ''Z'' c)"

definition is_digit :: "char \<Rightarrow> bool" where
  "is_digit c = in_range CHR ''0'' CHR ''9'' c"

definition is_word_char :: "char \<Rightarrow> bool" where
  "is_word_char c = (is_alpha c \<or> is_digit c \<or> c = CHR ''_'')"

text \<open>
  Line terminators (excluded by \<^verbatim>\<open>.\<close>, recognised by \<^verbatim>\<open>^\<close> and \<^verbatim>\<open>$\<close> under the
  \<^verbatim>\<open>m\<close> flag) are LF and CR; white space \<^verbatim>\<open>\s\<close> is TAB, LF, VT, FF, CR, SPACE and
  NBSP. The remaining Unicode members of both classes lie above code unit 255.
\<close>

definition is_line_terminator :: "char \<Rightarrow> bool" where
  "is_line_terminator c = (code_unit c = 10 \<or> code_unit c = 13)"

definition is_space :: "char \<Rightarrow> bool" where
  "is_space c = (code_unit c \<in> {9, 10, 11, 12, 13, 32, 160})"

definition any_char :: "char \<Rightarrow> bool" where
  "any_char c = (\<not> is_line_terminator c)"

section \<open>Regular expressions as the source writes them\<close>

text \<open>
  The source decides everything about names and property lines with regular expression
  literals. Each literal is translated constructor by constructor into a \<open>regex\<close>, and
  \<open>rmatch\<close> is the backtracking matcher of the language: from a position of the input it
  returns the end positions of all matches in the order in which backtracking tries
  them (greedy repetition first), together with the captures.
\<close>

type_synonym caps = "(nat \<times> string) list"
type_synonym mstate = "nat \<times> caps"

datatype regex =
    REps
  | RCls "char \<Rightarrow> bool"
  | RSeq regex regex
  | RAlt regex regex
  | RStar regex
  | RGrp nat regex
  | RBos
  | REos
  | RBol
  | REol
  | RWordB

definition char_before :: "string \<Rightarrow> nat \<Rightarrow> char option" where
  "char_before inp i = (if 0 < i \<and> i \<le> length inp then Some (inp ! (i - 1)) else None)"

definition char_at :: "string \<Rightarrow> nat \<Rightarrow> char option" where
  "char_at inp i = (if i < length inp then Some (inp ! i) else None)"

definition opt_test :: "(char \<Rightarrow> bool) \<Rightarrow> char option \<Rightarrow> bool" where
  "opt_test p x = (case x of None \<Rightarrow> False | Some c \<Rightarrow> p c)"

definition word_boundary :: "string \<Rightarrow> nat \<Rightarrow> bool" where
  "word_boundary inp i =
     (opt_test is_word_char (char_before inp i) \<noteq> opt_test is_word_char (char_at inp i))"

text \<open>
  \<open>RBos\<close>/\<open>REos\<close> are \<^verbatim>\<open>^\<close>/\<^verbatim>\<open>$\<close> without the \<^verbatim>\<open>m\<close> flag, \<open>RBol\<close>/\<open>REol\<close> with it,
  \<open>RWordB\<close> is \<^verbatim>\<open>\b\<close>. An iteration of \<open>RStar\<close> that consumes nothing is discarded, as
  the language's repeat matcher does; the bound \<open>fst st' \<le> length inp\<close> holds for every
  match (lemma \<open>rmatch_bounds\<close>) and is written out for the termination proof only.
\<close>

function rmatch :: "regex \<Rightarrow> string \<Rightarrow> mstate \<Rightarrow> mstate list" where
  "rmatch REps inp st = [st]"
| "rmatch (RCls p) inp (i, cs) =
     (if i < length inp \<and> p (inp ! i) then [(Suc i, cs)] else [])"
| "rmatch (RSeq a b) inp st = concat (map (\<lambda>st'. rmatch b inp st') (rmatch a inp st))"
| "rmatch (RAlt a b) inp st = rmatch a inp st @ rmatch b inp st"
| "rmatch (RStar a) inp (i, cs) =
     concat (map (\<lambda>st'. rmatch (RStar a) inp st')
                 (filter (\<lambda>st'. i < fst st' \<and> fst st' \<le> length inp) (rmatch a inp (i, cs))))
     @ [(i, cs)]"
| "rmatch (RGrp k a) inp (i, cs) =
     map (\<lambda>(j, cs'). (j, (k, take (j - i) (drop i inp)) # cs')) (rmatch a inp (i, cs))"
| "rmatch RBos inp (i, cs) = (if i = 0 then [(i, cs)] else [])"
| "rmatch REos inp (i, cs) = (if i = length inp then [(i, cs)] else [])"
| "rmatch RBol inp (i, cs) =
     (if i = 0 \<or> opt_test is_line_terminator (char_before inp i) then [(i, cs)] else [])"
| "rmatch REol inp (i, cs) =
     (if i = length inp \<or> opt_test is_line_terminator (char_at inp i) then [(i, cs)] else [])"
| "rmatch RWordB inp (i, cs) = (if word_boundary inp i then [(i, cs)] else [])"
  by pat_completeness auto
termination
  by (relation "inv_image (measure size <*lex*> measure id)
                  (\<lambda>(r, inp, st). (r, Suc (length inp) - fst st))") auto

lemmas rmatch_star = rmatch.simps(5)

declare rmatch.simps(5) [simp del]

text \<open>Derived forms: \<^verbatim>\<open>r+\<close>, a sequence of items, a literal string.\<close>

definition RPlus :: "regex \<Rightarrow> regex" where
  "RPlus r = RSeq r (RStar r)"

definition seqs :: "regex list \<Rightarrow> regex" where
  "seqs rs = foldr RSeq rs REps"

definition lit :: "string \<Rightarrow> regex" where
  "lit s = seqs (map (\<lambda>c. RCls (\<lambda>d. d = c)) s)"

text \<open>
  \<^verbatim>\<open>RegExp.prototype.exec\<close> from a start index: the leftmost position at which the
  matcher succeeds, with the first match found there. \<^verbatim>\<open>test\<close> asks whether there is one.
\<close>

function re_search :: "regex \<Rightarrow> string \<Rightarrow> nat \<Rightarrow> (nat \<times> mstate) option" where
  "re_search r inp i =
     (if length inp < i then None
      else case rmatch r inp (i, []) of
             st # _ \<Rightarrow> Some (i, st)
           | [] \<Rightarrow> re_search r inp (Suc i))"
  by pat_completeness auto
termination
  by (relation "measure (\<lambda>(r, inp, i). Suc (length inp) - i)") auto

declare re_search.simps [simp del]

definition re_test :: "regex \<Rightarrow> string \<Rightarrow> bool" where
  "re_test r inp = (re_search r inp 0 \<noteq> None)"

section \<open>Promises and errors\<close>

text \<open>
  A rejection carries a \<^verbatim>\<open>CordovaError\<close> made by this layer, or whatever a library call
  threw.
\<close>

datatype error = CordovaError string | Thrown string

datatype 'a promise = Fulfilled 'a | Rejected error

section \<open>Name validation (bin/lib/create.js)\<close>

text \<open>\<^verbatim>\<open>/^[a-zA-Z][a-zA-Z0-9_]+(\.[a-zA-Z][a-zA-Z0-9_]*)+$/\<close>\<close>

definition package_name_body :: regex where
  "package_name_body =
     seqs [RCls is_alpha, RPlus (RCls is_word_char),
           RPlus (RGrp 1 (seqs [RCls (\<lambda>c. c = CHR ''.''), RCls is_alpha,
                                RStar (RCls is_word_char)]))]"

definition package_name_re :: regex where
  "package_name_re = RSeq RBos (RSeq package_name_body REos)"

text \<open>\<^verbatim>\<open>/\b[Cc]lass\b/\<close>\<close>

definition class_re :: regex where
  "class_re = seqs [RWordB, RCls (\<lambda>c. c = CHR ''C'' \<or> c = CHR ''c''), lit ''lass'', RWordB]"

definition validatePackageName :: "string \<Rightarrow> unit promise" where
  "validatePackageName package_name =
     (let msg = ''Error validating package name. '' in
      if \<not> re_test package_name_re package_name
      then Rejected (CordovaError (msg @ ''Package name must look like: com.company.Name''))
      else if re_test class_re package_name
      then Rejected (CordovaError (msg @ [CHR 0x22] @ ''class'' @ [CHR 0x22] @ '' is a reserved word''))
      else Fulfilled ())"

text \<open>\<^verbatim>\<open>/^[0-9]/\<close>\<close>

definition leading_digit_re :: regex where
  "leading_digit_re = RSeq RBos (RCls is_digit)"

definition validateProjectName :: "string \<Rightarrow> unit promise" where
  "validateProjectName project_name =
     (let msg = ''Error validating project name. '' in
      if project_name = ''''
      then Rejected (CordovaError (msg @ ''Project name cannot be empty''))
      else if project_name = ''CordovaActivity''
      then Rejected (CordovaError (msg @ ''Project name cannot be CordovaActivity''))
      else if re_test leading_digit_re project_name
      then Rejected (CordovaError (msg @ ''Project name must not begin with a number''))
      else Fulfilled ())"

definition is_rejected :: "'a promise \<Rightarrow> bool" where
  "is_rejected p = (case p of Rejected _ \<Rightarrow> True | Fulfilled _ \<Rightarrow> False)"

section \<open>What the specification says about package names\<close>

text \<open>
  The language of a regular expression without anchors, as a relation between the
  expression and the words it denotes. It is the meaning the specification gives to its
  grammar; the matcher above is what runs.
\<close>

inductive matches :: "regex \<Rightarrow> string \<Rightarrow> bool" where
  m_eps: "matches REps []"
| m_cls: "p c \<Longrightarrow> matches (RCls p) [c]"
| m_seq: "matches a u \<Longrightarrow> matches b v \<Longrightarrow> matches (RSeq a b) (u @ v)"
| m_alt1: "matches a u \<Longrightarrow> matches (RAlt a b) u"
| m_alt2: "matches b u \<Longrightarrow> matches (RAlt a b) u"
| m_star0: "matches (RStar a) []"
| m_star: "matches a u \<Longrightarrow> matches (RStar a) v \<Longrightarrow> matches (RStar a) (u @ v)"
| m_grp: "matches a u \<Longrightarrow> matches (RGrp k a) u"

fun anchor_free :: "regex \<Rightarrow> bool" where
  "anchor_free REps = True"
| "anchor_free (RCls p) = True"
| "anchor_free (RSeq a b) = (anchor_free a \<and> anchor_free b)"
| "anchor_free (RAlt a b) = (anchor_free a \<and> anchor_free b)"
| "anchor_free (RStar a) = anchor_free a"
| "anchor_free (RGrp k a) = anchor_free a"
| "anchor_free RBos = False"
| "anchor_free REos = False"
| "anchor_free RBol = False"
| "anchor_free REol = False"
| "anchor_free RWordB = False"

text \<open>
  A token \<open>w\<close> stands at position \<open>i\<close> of the input when the input reads \<open>w\<close> there with a
  word boundary on both sides. \<open>contains_token_ci\<close> is the specification's reading,
  "case-insensitive": the input read in lower case.
\<close>

definition token_at :: "string \<Rightarrow> string \<Rightarrow> nat \<Rightarrow> bool" where
  "token_at w inp i = (i + length w \<le> length inp \<and> take (length w) (drop i inp) = w \<and>
      word_boundary inp i \<and> word_boundary inp (i + length w))"

definition contains_token :: "string \<Rightarrow> string \<Rightarrow> bool" where
  "contains_token w inp = (\<exists>i. token_at w inp i)"

definition to_lower :: "char \<Rightarrow> char" where
  "to_lower c = (case map_of (zip ''ABCDEFGHIJKLMNOPQRSTUVWXYZ'' ''abcdefghijklmnopqrstuvwxyz'') c of
                   Some d \<Rightarrow> d | None \<Rightarrow> c)"

definition contains_token_ci :: "string \<Rightarrow> string \<Rightarrow> bool" where
  "contains_token_ci w inp = (\<exists>i. i + length w \<le> length inp \<and>
      map to_lower (take (length w) (drop i inp)) = w \<and>
      word_boundary inp i \<and> word_boundary inp (i + length w))"

definition package_segment :: "string \<Rightarrow> bool" where
  "package_segment w = (\<exists>c t. w = CHR ''.'' # c # t \<and> is_alpha c \<and> (\<forall>d\<in>set t. is_word_char d))"

definition java_package_like :: "string \<Rightarrow> bool" where
  "java_package_like s = (\<exists>c t segs. s = c # t @ concat segs \<and> is_alpha c \<and>
      t \<noteq> [] \<and> (\<forall>d\<in>set t. is_word_char d) \<and> segs \<noteq> [] \<and> (\<forall>w\<in>set segs. package_segment w))"

section \<open>Values, paths and effects\<close>

text \<open>
  A value an option field can hold. \<open>js_truthy\<close> is the language's conversion to a
  boolean; \<^verbatim>\<open>x === true\<close> is equality with \<open>JBool True\<close>.
\<close>

datatype jsval = JUndefined | JNull | JBool bool | JStr string

fun js_truthy :: "jsval \<Rightarrow> bool" where
  "js_truthy JUndefined = False"
| "js_truthy JNull = False"
| "js_truthy (JBool b) = b"
| "js_truthy (JStr s) = (s \<noteq> '''')"

text \<open>
  \<^verbatim>\<open>path.join\<close> on POSIX: the non-empty segments joined by a slash. No segment the
  source joins holds \<^verbatim>\<open>.\<close> or \<^verbatim>\<open>..\<close>, so the normalisation step is left out.
\<close>

fun join_with_slash :: "string list \<Rightarrow> string" where
  "join_with_slash [] = ''''"
| "join_with_slash [s] = s"
| "join_with_slash (s # t # ss) = s @ ''/'' @ join_with_slash (t # ss)"

definition path_join :: "string list \<Rightarrow> string" where
  "path_join segs = join_with_slash (filter (\<lambda>s. s \<noteq> '''') segs)"

text \<open>
  The option bags of \<^verbatim>\<open>addPlugin\<close> and \<^verbatim>\<open>removePlugin\<close>: the fields the facade reads
  or writes. \<open>variables\<close> is the name-to-string map of plugin variables, absent when the
  caller gave none; a variable that is not in the map reads as \<^verbatim>\<open>undefined\<close>.
\<close>

record plugin_options =
  link :: jsval
  variables :: "(string \<rightharpoonup> string) option"
  usePlatformWww :: jsval
  android_studio :: jsval

definition empty_options :: plugin_options where
  "empty_options = \<lparr> link = JUndefined, variables = None, usePlatformWww = JUndefined,
                      android_studio = JUndefined \<rparr>"

definition var_value :: "(string \<rightharpoonup> string) \<Rightarrow> string \<Rightarrow> jsval" where
  "var_value vars name = (case vars name of None \<Rightarrow> JUndefined | Some v \<Rightarrow> JStr v)"

record clean_options =
  noPrepare :: bool

record locations =
  loc_root :: string
  loc_www :: string
  loc_res :: string
  loc_platformWww :: string
  loc_configXml :: string
  loc_defaultConfigXml :: string
  loc_strings :: string
  loc_manifest :: string
  loc_build :: string
  loc_javaSrc :: string
  loc_cordovaJs :: string
  loc_cordovaJsSrc :: string

record api =
  platform :: string
  root :: string
  builder :: string
  locations :: locations
  api_android_studio :: bool

text \<open>A plugin, as far as the facade looks at it: its frameworks for a platform.\<close>

record plugin_info =
  plugin_id :: string
  getFrameworks :: "string \<Rightarrow> string list"

text \<open>The project file handle of \<^verbatim>\<open>AndroidProject.getProjectFile\<close>.\<close>

record project_file =
  getPackageName :: string
  isClean :: bool

text \<open>
  Modelled from the spec: the manifest document of the Manifest Editor
  (bin/templates/cordova/lib/AndroidManifest.js is not among the sources). It holds the
  fields the system touches: package id, minimum and target SDK version (numbers in
  textual storage), debuggable flag and the name of the launch activity. Each setter
  changes its own field, and nothing is persisted before \<^verbatim>\<open>write\<close>.
\<close>

record manifest =
  packageId :: string
  minSdkVersion :: string
  targetSdkVersion :: jsval
  debuggable :: bool
  activityName :: string

text \<open>
  The operations on the file system, as the scaffolder issues them: the \<^verbatim>\<open>shelljs\<close>
  commands with their option string (empty when there is none) and the calls of \<^verbatim>\<open>fs\<close>.
  \<open>ShellSed\<close> carries the source text of its pattern, the replacement and the file.
\<close>

datatype fs_op =
    ShellCp string string string
  | ShellMkdir string string
  | ShellRm string string
  | ShellSed string string string string
  | FsUnlink string
  | FsSymlink string string
  | FsWriteFile string string
  | ManifestWrite string manifest

text \<open>
  What the facade and the scaffolder do to the outside, in the order in which they do it:
  events emitted on the event bus, lines on the console, operations on the file system,
  and calls into the collaborators that are not part of this layer (requirement check,
  build tool, web-asset preparation, plugin manager, builder). \<open>PrepBuildFiles\<close> names
  the builders module it loads and the builder it asks for.
\<close>

datatype event =
    Emit string string
  | ConsoleLog string
  | Fs fs_op
  | CheckReqsRun
  | BuildRunClean clean_options
  | PrepareClean clean_options
  | PluginManagerAdd string locations project_file plugin_info plugin_options
  | PluginManagerRemove string locations project_file plugin_info "plugin_options option"
  | PrepBuildFiles string string

text \<open>
  The collaborators: what each of them answers. A promise they return is given by its
  outcome; a builder that throws is the outcome \<open>Rejected\<close> of the step that called it.
\<close>

record collaborators =
  isAndroidStudioProject :: "string \<Rightarrow> bool"
  getProjectFile :: "string \<Rightarrow> project_file"
  check_reqs_run :: "unit promise"
  build_runClean :: "clean_options \<Rightarrow> unit promise"
  prepare_clean :: "clean_options \<Rightarrow> unit promise"
  pm_addPlugin :: "plugin_info \<Rightarrow> plugin_options \<Rightarrow> unit promise"
  pm_removePlugin :: "plugin_info \<Rightarrow> plugin_options option \<Rightarrow> unit promise"
  builder_prepBuildFiles :: "string \<Rightarrow> unit promise"

text \<open>
  A step of a promise chain: its outcome and the events it caused. \<open>then_io\<close> is
  \<^verbatim>\<open>.then\<close>: the next step runs only when the one before fulfilled, otherwise the
  rejection is passed on.
\<close>

type_synonym 'a io = "'a promise \<times> event list"

definition resolve :: "'a \<Rightarrow> 'a io" where
  "resolve x = (Fulfilled x, [])"

definition call :: "event \<Rightarrow> 'a promise \<Rightarrow> 'a io" where
  "call e outcome = (outcome, [e])"

definition then_io :: "'a io \<Rightarrow> ('a \<Rightarrow> 'b io) \<Rightarrow> 'b io" where
  "then_io m f =
     (case m of
        (Rejected err, t) \<Rightarrow> (Rejected err, t)
      | (Fulfilled x, t) \<Rightarrow> (case f x of (q, t') \<Rightarrow> (q, t @ t')))"

definition thenResolve :: "'a io \<Rightarrow> 'b \<Rightarrow> 'b io" where
  "thenResolve m v = then_io m (\<lambda>_. resolve v)"

section \<open>The platform facade (bin/templates/cordova/Api.js)\<close>

text \<open>The constructor \<^verbatim>\<open>Api\<close>; \<open>root_dir\<close> is \<^verbatim>\<open>path.resolve(__dirname, '..')\<close>.\<close>

definition PLATFORM :: string where
  "PLATFORM = ''android''"

definition Api :: "collaborators \<Rightarrow> string \<Rightarrow> api \<times> event list" where
  "Api w root_dir =
     (let locs = \<lparr> loc_root = root_dir,
                   loc_www = path_join [root_dir, ''assets/www''],
                   loc_res = path_join [root_dir, ''res''],
                   loc_platformWww = path_join [root_dir, ''platform_www''],
                   loc_configXml = path_join [root_dir, ''res/xml/config.xml''],
                   loc_defaultConfigXml = path_join [root_dir, ''cordova/defaults.xml''],
                   loc_strings = path_join [root_dir, ''res/values/strings.xml''],
                   loc_manifest = path_join [root_dir, ''AndroidManifest.xml''],
                   loc_build = path_join [root_dir, ''build''],
                   loc_javaSrc = path_join [root_dir, ''src''],
                   loc_cordovaJs = ''bin/templates/project/assets/www/cordova.js'',
                   loc_cordovaJsSrc = ''cordova-js-src'' \<rparr>;
          self = \<lparr> platform = PLATFORM, root = root_dir, builder = ''gradle'',
                   locations = locs, api_android_studio = False \<rparr>
      in if isAndroidStudioProject w root_dir
         then (self \<lparr> api_android_studio := True,
                      locations := locs \<lparr>
                        loc_configXml := path_join [root_dir, ''app/src/main/res/xml/config.xml''],
                        loc_strings := path_join [root_dir, ''app/src/main/res/xml/strings.xml''],
                        loc_manifest := path_join [root_dir, ''app/src/main/AndroidManifest.xml''],
                        loc_javaSrc := path_join [root_dir, ''app/src/main/java/''],
                        loc_www := path_join [root_dir, ''app/src/main/assets/www''],
                        loc_res := path_join [root_dir, ''app/src/main/res''] \<rparr> \<rparr>,
               [Emit ''log'' ''Android Studio project detected''])
         else (self, []))"

text \<open>\<^verbatim>\<open>Api.prototype.clean\<close>\<close>

definition clean :: "collaborators \<Rightarrow> api \<Rightarrow> clean_options \<Rightarrow> unit io" where
  "clean w self cleanOptions =
     then_io (then_io (call CheckReqsRun (check_reqs_run w))
                (\<lambda>_. call (BuildRunClean cleanOptions) (build_runClean w cleanOptions)))
       (\<lambda>_. call (PrepareClean cleanOptions) (prepare_clean w cleanOptions))"

text \<open>
  The last step of both plugin operations: nothing when the plugin has no framework for
  the platform, otherwise a verbose event and the builder's \<^verbatim>\<open>prepBuildFiles\<close>.
\<close>

definition update_build_files :: "collaborators \<Rightarrow> api \<Rightarrow> plugin_info \<Rightarrow> unit io" where
  "update_build_files w self plugin =
     (if length (getFrameworks plugin (platform self)) = 0 then resolve ()
      else then_io
             (call (Emit ''verbose'' ''Updating build files since android plugin contained <framework>'')
                   (Fulfilled ()))
             (\<lambda>_. call (PrepBuildFiles ''./lib/builders/builders'' (builder self))
                        (builder_prepBuildFiles w (builder self))))"

text \<open>
  \<^verbatim>\<open>Api.prototype.addPlugin\<close>, first part: the option bag as it stands when the promise
  chain starts. The caller's bag is updated in place; with no bag, a fresh one is made.
\<close>

definition install_options :: "collaborators \<Rightarrow> api \<Rightarrow> plugin_options option \<Rightarrow> plugin_options" where
  "install_options w self installOptions =
     (let project = getProjectFile w (root self);
          opts = (case installOptions of None \<Rightarrow> empty_options | Some opts \<Rightarrow> opts);
          vars = (case variables opts of None \<Rightarrow> Map.empty | Some vars \<Rightarrow> vars);
          vars = (if \<not> js_truthy (var_value vars ''PACKAGE_NAME'')
                  then vars(''PACKAGE_NAME'' \<mapsto> getPackageName project) else vars);
          opts = opts \<lparr> variables := Some vars \<rparr>
      in if api_android_studio self then opts \<lparr> android_studio := JBool True \<rparr> else opts)"

text \<open>
  Second part, the first step of the chain: the clean that works around the build-tool
  defect (CB-11964), asked for with \<^verbatim>\<open>noPrepare\<close> so that the prepared files stay.
\<close>

definition implicit_clean :: "collaborators \<Rightarrow> api \<Rightarrow> unit io" where
  "implicit_clean w self =
     (let project = getProjectFile w (root self);
          opts = \<lparr> noPrepare = True \<rparr>
      in if \<not> isAndroidStudioProject w (root self) \<and> \<not> isClean project
         then clean w self opts else resolve ())"

definition addPlugin ::
  "collaborators \<Rightarrow> api \<Rightarrow> plugin_info \<Rightarrow> plugin_options option \<Rightarrow> bool io" where
  "addPlugin w self plugin installOptions =
     (let project = getProjectFile w (root self);
          installOptions = install_options w self installOptions
      in thenResolve
           (then_io
              (then_io
                 (then_io (resolve ()) (\<lambda>_. implicit_clean w self))
                 (\<lambda>_. call (PluginManagerAdd (platform self) (locations self) project plugin installOptions)
                            (pm_addPlugin w plugin installOptions)))
              (\<lambda>_. update_build_files w self plugin))
           True)"

text \<open>
  \<^verbatim>\<open>Api.prototype.removePlugin\<close>. The first component is the caller's option bag after
  the call (it is the object handed on to the plugin manager).
\<close>

definition uninstall_options :: "api \<Rightarrow> plugin_options option \<Rightarrow> plugin_options option" where
  "uninstall_options self uninstallOptions =
     (case uninstallOptions of
        None \<Rightarrow> None
      | Some opts \<Rightarrow>
          if usePlatformWww opts = JBool True \<and> api_android_studio self
          then Some (opts \<lparr> usePlatformWww := JBool False, android_studio := JBool True \<rparr>)
          else Some opts)"

definition removePlugin ::
  "collaborators \<Rightarrow> api \<Rightarrow> plugin_info \<Rightarrow> plugin_options option
     \<Rightarrow> plugin_options option \<times> bool io" where
  "removePlugin w self plugin uninstallOptions =
     (let project = getProjectFile w (root self);
          uninstallOptions = uninstall_options self uninstallOptions
      in (uninstallOptions,
          thenResolve
            (then_io
               (call (PluginManagerRemove (platform self) (locations self) project plugin uninstallOptions)
                     (pm_removePlugin w plugin uninstallOptions))
               (\<lambda>_. update_build_files w self plugin))
            True))"

text \<open>Readings of a trace of events.\<close>

definition is_prep :: "event \<Rightarrow> bool" where
  "is_prep e = (case e of PrepBuildFiles _ _ \<Rightarrow> True | _ \<Rightarrow> False)"

definition prep_count :: "event list \<Rightarrow> nat" where
  "prep_count t = length (filter is_prep t)"

definition is_clean_event :: "event \<Rightarrow> bool" where
  "is_clean_event e =
     (case e of CheckReqsRun \<Rightarrow> True | BuildRunClean _ \<Rightarrow> True | PrepareClean _ \<Rightarrow> True
      | _ \<Rightarrow> False)"

definition pm_add_options :: "event list \<Rightarrow> plugin_options list" where
  "pm_add_options t =
     List.map_filter (\<lambda>e. case e of PluginManagerAdd _ _ _ _ opts \<Rightarrow> Some opts | _ \<Rightarrow> None) t"

definition pm_remove_options :: "event list \<Rightarrow> plugin_options option list" where
  "pm_remove_options t =
     List.map_filter (\<lambda>e. case e of PluginManagerRemove _ _ _ _ opts \<Rightarrow> Some opts | _ \<Rightarrow> None) t"

definition caller_variables :: "plugin_options option \<Rightarrow> (string \<rightharpoonup> string)" where
  "caller_variables installOptions =
     (case installOptions of
        None \<Rightarrow> Map.empty
      | Some opts \<Rightarrow> (case variables opts of None \<Rightarrow> Map.empty | Some vars \<Rightarrow> vars))"

definition package_name_variable :: "plugin_options \<Rightarrow> string option" where
  "package_name_variable opts =
     (case variables opts of None \<Rightarrow> None | Some vars \<Rightarrow> vars ''PACKAGE_NAME'')"

text \<open>A project, a plugin and collaborators to run the facade on.\<close>

definition example_project :: project_file where
  "example_project = \<lparr> getPackageName = ''com.example.app'', isClean = False \<rparr>"

definition example_plugin :: plugin_info where
  "example_plugin = \<lparr> plugin_id = ''cordova-plugin-example'',
                        getFrameworks = (\<lambda>p. if p = ''android'' then [''src/android/build.gradle''] else []) \<rparr>"

definition plain_plugin :: plugin_info where
  "plain_plugin = \<lparr> plugin_id = ''cordova-plugin-plain'', getFrameworks = (\<lambda>p. []) \<rparr>"

definition example_collaborators :: collaborators where
  "example_collaborators =
     \<lparr> isAndroidStudioProject = (\<lambda>r. False),
       getProjectFile = (\<lambda>r. example_project),
       check_reqs_run = Fulfilled (),
       build_runClean = (\<lambda>opts. Fulfilled ()),
       prepare_clean = (\<lambda>opts. Fulfilled ()),
       pm_addPlugin = (\<lambda>p opts. Fulfilled ()),
       pm_removePlugin = (\<lambda>p opts. Fulfilled ()),
       builder_prepBuildFiles = (\<lambda>b. Fulfilled ()) \<rparr>"

definition studio_collaborators :: collaborators where
  "studio_collaborators = example_collaborators \<lparr> isAndroidStudioProject := (\<lambda>r. True) \<rparr>"

definition failing_plugin_manager :: collaborators where
  "failing_plugin_manager =
     example_collaborators
       \<lparr> pm_addPlugin := (\<lambda>p opts. Rejected (CordovaError ''Failed to install plugin'')),
         pm_removePlugin := (\<lambda>p opts. Rejected (CordovaError ''Failed to uninstall plugin'')) \<rparr>"

definition blank_package_name_options :: plugin_options where
  "blank_package_name_options =
     empty_options \<lparr> variables := Some [''PACKAGE_NAME'' \<mapsto> '''', ''API_KEY'' \<mapsto> ''k1''] \<rparr>"

definition platform_www_options :: plugin_options where
  "platform_www_options = empty_options \<lparr> usePlatformWww := JBool True \<rparr>"

definition example_api :: api where
  "example_api = fst (Api example_collaborators ''platforms/android'')"

definition studio_api :: api where
  "studio_api = fst (Api studio_collaborators ''platforms/android'')"

section \<open>Strings and numbers of the scaffolder\<close>

text \<open>The decimal numeral of a number, as string concatenation with a number writes it.\<close>

fun show_nat :: "nat \<Rightarrow> string" where
  "show_nat n =
     (if n < 10 then [''0123456789'' ! n]
      else show_nat (n div 10) @ [''0123456789'' ! (n mod 10)])"

declare show_nat.simps [simp del]

definition digit_value :: "char \<Rightarrow> nat" where
  "digit_value c = code_unit c - 48"

definition decimal_value :: "string \<Rightarrow> nat" where
  "decimal_value s = foldl (\<lambda>a c. 10 * a + digit_value c) 0 s"

definition numeric_text :: "string \<Rightarrow> bool" where
  "numeric_text s = (s \<noteq> [] \<and> list_all is_digit s)"

text \<open>
  Number values: \<^verbatim>\<open>NaN\<close>, the two infinities and the finite doubles, each as the rational
  number it is. The sign of a zero is not kept: no comparison reads it.
\<close>

datatype js_number = JNaN | JNegInfinity | JNum rat | JPosInfinity

text \<open>\<^verbatim>\<open>x < y\<close> and \<^verbatim>\<open>x >= y\<close> on numbers: every comparison with \<^verbatim>\<open>NaN\<close> is false.\<close>

definition js_less :: "js_number \<Rightarrow> js_number \<Rightarrow> bool" where
  "js_less x y =
     (case (x, y) of
        (JNum a, JNum b) \<Rightarrow> a < b
      | (JNum a, JPosInfinity) \<Rightarrow> True
      | (JNegInfinity, JNum b) \<Rightarrow> True
      | (JNegInfinity, JPosInfinity) \<Rightarrow> True
      | _ \<Rightarrow> False)"

definition js_greater_equal :: "js_number \<Rightarrow> js_number \<Rightarrow> bool" where
  "js_greater_equal x y =
     (case (x, y) of
        (JNum a, JNum b) \<Rightarrow> b \<le> a
      | (JNum a, JNegInfinity) \<Rightarrow> True
      | (JPosInfinity, JNum b) \<Rightarrow> True
      | (JPosInfinity, JNegInfinity) \<Rightarrow> True
      | (JPosInfinity, JPosInfinity) \<Rightarrow> True
      | (JNegInfinity, JNegInfinity) \<Rightarrow> True
      | _ \<Rightarrow> False)"

text \<open>
  The double nearest to a real number, ties to the even significand: a double has 53
  significant bits, the binary exponent of a normal one is at least -1022, and what
  rounds to \<open>2 ^ 1024\<close> or beyond is an infinity. \<open>binade v\<close> is the exponent \<open>e\<close> with
  \<open>2 ^ e \<le> v < 2 ^ (e + 1)\<close>, for a positive \<open>v\<close>.
\<close>

fun bit_length :: "nat \<Rightarrow> nat" where
  "bit_length n = (if n = 0 then 0 else Suc (bit_length (n div 2)))"

declare bit_length.simps [simp del]

definition binade :: "rat \<Rightarrow> int" where
  "binade v =
     (if 1 \<le> v then int (bit_length (nat \<lfloor>v\<rfloor>)) - 1
      else - int (bit_length (nat (\<lceil>1 / v\<rceil> - 1))))"

definition round_ties_even :: "rat \<Rightarrow> int" where
  "round_ties_even x =
     (let f = \<lfloor>x\<rfloor>; r = x - of_int f
      in if r < 1 / 2 then f else if 1 / 2 < r then f + 1 else if even f then f else f + 1)"

definition to_double :: "rat \<Rightarrow> js_number" where
  "to_double v =
     (if v = 0 then JNum 0
      else let e = max (binade \<bar>v\<bar>) (- 1022);
               ulp = 2 powi (e - 52);
               d = of_int (round_ties_even (v / ulp)) * ulp
           in if 2 powi 1024 \<le> \<bar>d\<bar> then (if 0 < v then JPosInfinity else JNegInfinity)
              else JNum d)"

text \<open>
  \<^verbatim>\<open>Number(text)\<close>, the conversion of a string to a number. White space around the text
  is dropped and the empty text is 0. What is left is a numeral with the prefix
  \<^verbatim>\<open>0x\<close>, \<^verbatim>\<open>0o\<close> or \<^verbatim>\<open>0b\<close> (either case, no sign), or an optionally signed decimal
  literal: \<^verbatim>\<open>Infinity\<close>, or digits with an optional fraction (digits on at least one
  side of the point) and an optional exponent. Every other text is \<^verbatim>\<open>NaN\<close>. The number
  is the double nearest to the value of the literal.
\<close>

definition is_hex_digit :: "char \<Rightarrow> bool" where
  "is_hex_digit c =
     (is_digit c \<or> in_range CHR ''a'' CHR ''f'' c \<or> in_range CHR ''A'' CHR ''F'' c)"

definition radix_digit_value :: "char \<Rightarrow> nat" where
  "radix_digit_value c =
     (if is_digit c then code_unit c - 48
      else if in_range CHR ''a'' CHR ''f'' c then code_unit c - 87
      else code_unit c - 55)"

definition radix_value :: "nat \<Rightarrow> string \<Rightarrow> nat" where
  "radix_value base s = foldl (\<lambda>a c. base * a + radix_digit_value c) 0 s"

definition radix_literal :: "nat \<Rightarrow> (char \<Rightarrow> bool) \<Rightarrow> string \<Rightarrow> js_number" where
  "radix_literal base digit s =
     (if s \<noteq> [] \<and> list_all digit s then to_double (of_nat (radix_value base s)) else JNaN)"

text \<open>
  The exponent part: absent (exponent 0), or \<^verbatim>\<open>e\<close> or \<^verbatim>\<open>E\<close>, an optional sign and
  digits; \<open>None\<close> when the text is neither.
\<close>

definition exponent_part :: "string \<Rightarrow> int option" where
  "exponent_part s =
     (case s of
        [] \<Rightarrow> Some 0
      | c # t \<Rightarrow>
          if c = CHR ''e'' \<or> c = CHR ''E''
          then (case t of
                  [] \<Rightarrow> None
                | sign # ds \<Rightarrow>
                    if sign = CHR ''+'' then (if numeric_text ds then Some (int (decimal_value ds)) else None)
                    else if sign = CHR ''-''
                    then (if numeric_text ds then Some (- int (decimal_value ds)) else None)
                    else (if numeric_text t then Some (int (decimal_value t)) else None))
          else None)"

text \<open>The value of an unsigned decimal literal other than \<^verbatim>\<open>Infinity\<close>; \<open>None\<close> is no literal.\<close>

definition unsigned_decimal :: "string \<Rightarrow> rat option" where
  "unsigned_decimal s =
     (let whole = takeWhile is_digit s;
          rest = dropWhile is_digit s;
          fraction = (case rest of c # t \<Rightarrow> if c = CHR ''.'' then takeWhile is_digit t else [] | [] \<Rightarrow> []);
          rest = (case rest of c # t \<Rightarrow> if c = CHR ''.'' then dropWhile is_digit t else rest | [] \<Rightarrow> [])
      in if whole = [] \<and> fraction = [] then None
         else (case exponent_part rest of
                 None \<Rightarrow> None
               | Some e \<Rightarrow>
                   Some (of_nat (decimal_value (whole @ fraction)) * 10 powi (e - int (length fraction)))))"

definition unsigned_literal :: "bool \<Rightarrow> string \<Rightarrow> js_number" where
  "unsigned_literal negative s =
     (if s = ''Infinity'' then (if negative then JNegInfinity else JPosInfinity)
      else (case unsigned_decimal s of
              None \<Rightarrow> JNaN
            | Some v \<Rightarrow> to_double (if negative then - v else v)))"

definition decimal_literal :: "string \<Rightarrow> js_number" where
  "decimal_literal s =
     (case s of
        [] \<Rightarrow> JNaN
      | c # t \<Rightarrow>
          if c = CHR ''+'' then unsigned_literal False t
          else if c = CHR ''-'' then unsigned_literal True t
          else unsigned_literal False s)"

definition trim_space :: "string \<Rightarrow> string" where
  "trim_space s = rev (dropWhile is_space (rev (dropWhile is_space s)))"

definition js_Number :: "string \<Rightarrow> js_number" where
  "js_Number s =
     (let t = trim_space s in
      if t = [] then JNum 0
      else if prefix ''0x'' t \<or> prefix ''0X'' t then radix_literal 16 is_hex_digit (drop 2 t)
      else if prefix ''0o'' t \<or> prefix ''0O'' t then radix_literal 8 (in_range CHR ''0'' CHR ''7'') (drop 2 t)
      else if prefix ''0b'' t \<or> prefix ''0B'' t then radix_literal 2 (in_range CHR ''0'' CHR ''1'') (drop 2 t)
      else decimal_literal t)"

text \<open>
  \<^verbatim>\<open>a || b\<close> on values that are a string or \<^verbatim>\<open>undefined\<close>: the empty string is falsy, as
  \<^verbatim>\<open>undefined\<close> is.
\<close>

definition str_truthy :: "string option \<Rightarrow> bool" where
  "str_truthy x = (case x of None \<Rightarrow> False | Some s \<Rightarrow> s \<noteq> '''')"

definition str_or :: "string option \<Rightarrow> string option \<Rightarrow> string option" where
  "str_or a b = (if str_truthy a then a else b)"

subsection \<open>Searching and replacing\<close>

lemma re_search_start:
  "re_search r inp i = Some (s, st) \<Longrightarrow> i \<le> s \<and> s \<le> length inp"
proof (induction r inp i rule: re_search.induct)
  case (1 r inp i)
  show ?case
  proof (cases "length inp < i")
    case True
    with "1.prems" show ?thesis by (subst (asm) re_search.simps) simp
  next
    case False
    show ?thesis
    proof (cases "rmatch r inp (i, [])")
      case Nil
      with False "1.prems" have "re_search r inp (Suc i) = Some (s, st)"
        by (subst (asm) re_search.simps) simp
      from "1.IH"[OF False Nil this] show ?thesis by simp
    next
      case (Cons a rest)
      with False "1.prems" show ?thesis
        by (subst (asm) re_search.simps) auto
    qed
  qed
qed

text \<open>
  The replacement text of \<^verbatim>\<open>String.prototype.replace\<close> for a pattern without capture
  groups: \<^verbatim>\<open>$$\<close> is a dollar sign, \<^verbatim>\<open>$&\<close> the match, \<^verbatim>\<open>$`\<close> and \<^verbatim>\<open>$'\<close> the text before
  and after it; every other character stands for itself.
\<close>

fun expand_replacement :: "string \<Rightarrow> string \<Rightarrow> string \<Rightarrow> string \<Rightarrow> string" where
  "expand_replacement [] matched pre post = []"
| "expand_replacement [c] matched pre post = [c]"
| "expand_replacement (c # d # rest) matched pre post =
     (if c = CHR ''$'' \<and> d = CHR ''$'' then CHR ''$'' # expand_replacement rest matched pre post
      else if c = CHR ''$'' \<and> d = CHR ''&'' then matched @ expand_replacement rest matched pre post
      else if c = CHR ''$'' \<and> d = CHR 0x60 then pre @ expand_replacement rest matched pre post
      else if c = CHR ''$'' \<and> d = CHR 0x27 then post @ expand_replacement rest matched pre post
      else c # expand_replacement (d # rest) matched pre post)"

definition substitution :: "string \<Rightarrow> string \<Rightarrow> nat \<Rightarrow> nat \<Rightarrow> string" where
  "substitution repl inp s e =
     expand_replacement repl (take (e - s) (drop s inp)) (take s inp) (drop e inp)"

text \<open>\<^verbatim>\<open>replace\<close> with a pattern without the \<^verbatim>\<open>g\<close> flag: the first match only.\<close>

definition replace_first :: "regex \<Rightarrow> string \<Rightarrow> string \<Rightarrow> string" where
  "replace_first r repl inp =
     (case re_search r inp 0 of
        None \<Rightarrow> inp
      | Some (s, e, cs) \<Rightarrow> take s inp @ substitution repl inp s e @ drop e inp)"

text \<open>
  \<^verbatim>\<open>replace\<close> with the \<^verbatim>\<open>g\<close> flag, from index \<open>i\<close> on: every match, left to right; after
  an empty match the search goes on one character further.
\<close>

function replace_from :: "regex \<Rightarrow> string \<Rightarrow> string \<Rightarrow> nat \<Rightarrow> string" where
  "replace_from r repl inp i =
     (case re_search r inp i of
        None \<Rightarrow> drop i inp
      | Some (s, e, cs) \<Rightarrow>
          take (s - i) (drop i inp) @ substitution repl inp s e @
          (if s < e then replace_from r repl inp e
           else if s < length inp then inp ! s # replace_from r repl inp (Suc s)
           else []))"
  by pat_completeness auto
termination
proof (relation "measure (\<lambda>(r, repl, inp, i). Suc (length inp) - i)")
  show "wf (measure (\<lambda>(r, repl, inp, i). Suc (length inp) - i))" by simp
next
  fix r repl inp i x2 s y e cs
  assume "re_search r inp i = Some x2" "(s, y) = x2" "(e, cs) = y" "s < e"
  then have "re_search r inp i = Some (s, (e, cs))" by simp
  from re_search_start[OF this] \<open>s < e\<close>
  show "((r, repl, inp, e), r, repl, inp, i) \<in> measure (\<lambda>(r, repl, inp, i). Suc (length inp) - i)"
    by auto
next
  fix r repl inp i x2 s y e cs
  assume "re_search r inp i = Some x2" "(s, y) = x2" "(e, cs) = y" "\<not> s < e" "s < length inp"
  then have "re_search r inp i = Some (s, (e, cs))" by simp
  from re_search_start[OF this] \<open>s < length inp\<close>
  show "((r, repl, inp, Suc s), r, repl, inp, i) \<in> measure (\<lambda>(r, repl, inp, i). Suc (length inp) - i)"
    by simp
qed

declare replace_from.simps [simp del]

definition replace_all :: "regex \<Rightarrow> string \<Rightarrow> string \<Rightarrow> string" where
  "replace_all r repl inp = replace_from r repl inp 0"

text \<open>
  The loop \<^verbatim>\<open>while ((m = r.exec(data)))\<close> over a pattern with the \<^verbatim>\<open>g\<close> flag: the first
  capture group of every match, each search starting where the match before ended. The
  loop only ends because every match of its pattern consumes input; the model stops at a
  match that would not move the index on.
\<close>

definition group1 :: "caps \<Rightarrow> string" where
  "group1 cs = (case map_of cs 1 of None \<Rightarrow> '''' | Some s \<Rightarrow> s)"

function exec_all :: "regex \<Rightarrow> string \<Rightarrow> nat \<Rightarrow> string list" where
  "exec_all r inp i =
     (case re_search r inp i of
        None \<Rightarrow> []
      | Some (s, e, cs) \<Rightarrow> if i < e then group1 cs # exec_all r inp e else [])"
  by pat_completeness auto
termination
proof (relation "measure (\<lambda>(r, inp, i). Suc (length inp) - i)")
  show "wf (measure (\<lambda>(r, inp, i). Suc (length inp) - i))" by simp
next
  fix r inp i x2 s y e cs
  assume "re_search r inp i = Some x2" "(s, y) = x2" "(e, cs) = y" "i < e"
  then have "re_search r inp i = Some (s, (e, cs))" by simp
  from re_search_start[OF this] \<open>i < e\<close>
  show "((r, inp, e), r, inp, i) \<in> measure (\<lambda>(r, inp, i). Suc (length inp) - i)"
    by auto
qed

declare exec_all.simps [simp del]

section \<open>The project properties file (bin/lib/create.js)\<close>

definition LF :: char where
  "LF = CHR 0x0A"

definition is_slash :: "char \<Rightarrow> bool" where
  "is_slash c = (c = CHR 0x5C \<or> c = CHR ''/'')"

text \<open>\<^verbatim>\<open>/^\s*android\.library\.reference\.\d+=(.*)(?:\s|$)/mg\<close>\<close>

definition reference_re :: regex where
  "reference_re =
     seqs [RBol, RStar (RCls is_space), lit ''android.library.reference.'', RPlus (RCls is_digit),
           RCls (\<lambda>c. c = CHR ''=''), RGrp 1 (RStar (RCls any_char)),
           RAlt (RCls is_space) REol]"

text \<open>\<^verbatim>\<open>/^target=.*/m\<close>\<close>

definition target_re :: regex where
  "target_re = seqs [RBol, lit ''target='', RStar (RCls any_char)]"

text \<open>\<^verbatim>\<open>/^CordovaLib$/m\<close>, \<^verbatim>\<open>/[\\\/]cordova-android[\\\/]framework$/m\<close> and
  \<^verbatim>\<open>/^(\.\.[\\\/])+framework$/m\<close>\<close>

definition cordovalib_re :: regex where
  "cordovalib_re = seqs [RBol, lit ''CordovaLib'', REol]"

definition framework_re :: regex where
  "framework_re =
     seqs [RCls is_slash, lit ''cordova-android'', RCls is_slash, lit ''framework'', REol]"

definition relative_framework_re :: regex where
  "relative_framework_re =
     seqs [RBol, RPlus (RGrp 1 (seqs [lit ''..'', RCls is_slash])), lit ''framework'', REol]"

text \<open>\<^verbatim>\<open>/^\s*android\.library\.reference\.\d+=.*\n/mg\<close> and \<^verbatim>\<open>/\n$/\<close>\<close>

definition reference_line_re :: regex where
  "reference_line_re =
     seqs [RBol, RStar (RCls is_space), lit ''android.library.reference.'', RPlus (RCls is_digit),
           RCls (\<lambda>c. c = CHR ''=''), RStar (RCls any_char), RCls (\<lambda>c. c = LF)]"

definition trailing_newline_re :: regex where
  "trailing_newline_re = seqs [RCls (\<lambda>c. c = LF), REos]"

text \<open>
  \<^verbatim>\<open>Object.keys\<close> of an object whose keys were set in the given order: every key once;
  the keys that are array indices first, in ascending numeric order, then the others in
  the order in which they were first set. Setting \<^verbatim>\<open>__proto__\<close> to a number creates no
  key.
\<close>

definition first_occurrences :: "string list \<Rightarrow> string list" where
  "first_occurrences ks = rev (remdups (rev ks))"

definition array_index_key :: "string \<Rightarrow> bool" where
  "array_index_key k =
     (k = ''0'' \<or> (numeric_text k \<and> hd k \<noteq> CHR ''0'' \<and> decimal_value k < 2 ^ 32 - 1))"

definition object_keys :: "string list \<Rightarrow> string list" where
  "object_keys ks =
     (let own = filter (\<lambda>k. k \<noteq> ''__proto__'') (first_occurrences ks)
      in sort_key decimal_value (filter array_index_key own) @
         filter (\<lambda>k. \<not> array_index_key k) own)"

definition extractSubProjectPaths :: "string \<Rightarrow> string list" where
  "extractSubProjectPaths data = object_keys (exec_all reference_re data 0)"

text \<open>
  \<open>writeProjectProperties\<close> between reading the file and writing it: the text written
  for the text read.
\<close>

definition stale_reference :: "string \<Rightarrow> bool" where
  "stale_reference p =
     (re_test cordovalib_re p \<or> re_test framework_re p \<or> re_test relative_framework_re p)"

definition reference_lines :: "string list \<Rightarrow> string" where
  "reference_lines subProjects =
     concat (map (\<lambda>(i, p). ''android.library.reference.'' @ show_nat (i + 1) @ ''='' @ p @ [LF])
                 (enumerate 0 subProjects))"

definition project_properties_text :: "string \<Rightarrow> string \<Rightarrow> string" where
  "project_properties_text target_api data0 =
     (let data = replace_first target_re (''target='' @ target_api) data0;
          subProjects = extractSubProjectPaths data;
          subProjects = filter (\<lambda>p. \<not> stale_reference p) subProjects;
          subProjects = ''CordovaLib'' # subProjects;
          data = replace_all reference_line_re '''' data;
          data = (if \<not> re_test trailing_newline_re data then data @ [LF] else data)
      in data @ reference_lines subProjects)"

definition lines_text :: "string list \<Rightarrow> string" where
  "lines_text ls = concat (map (\<lambda>l. l @ [LF]) ls)"

section \<open>The scaffolder (bin/lib/create.js)\<close>

text \<open>
  What the scaffolder asks of the machine it runs on, and what it is answered: the
  install directory \<open>ROOT\<close>, the path functions that depend on the working directory,
  what a path holds when it is looked at (\<open>existsSync\<close>, \<open>readFileSync\<close>,
  \<^verbatim>\<open>shell.ls\<close>, loading a manifest; \<open>None\<close> is an exception), the target that
  \<^verbatim>\<open>check_reqs.get_target\<close> reports, name and version of the tool's package, whether a
  given operation fails, whether the builder throws, and the value of
  \<^verbatim>\<open>shell.config.fatal\<close> when the scaffolder is entered. The last two fields are read by
  no function of the scaffolder; they say where an operation lands: whether a path is a
  directory, and the files that the builder of a builders module writes (the builders
  module is not among the sources, so what it writes is the machine's answer).
\<close>

record host =
  ROOT :: string
  relative_to_cwd :: "string \<Rightarrow> string"
  path_relative :: "string \<Rightarrow> string \<Rightarrow> string"
  path_resolve :: "string list \<Rightarrow> string"
  existsSync :: "string \<Rightarrow> bool"
  readFileSync :: "string \<Rightarrow> string option"
  shell_ls :: "string \<Rightarrow> string list"
  loadManifest :: "string \<Rightarrow> manifest option"
  get_target :: string
  pkg_name :: string
  pkg_version :: string
  op_fails :: "fs_op \<Rightarrow> bool"
  builder_throws :: "string \<Rightarrow> bool"
  shell_config_fatal :: bool
  is_directory :: "string \<Rightarrow> bool"
  builder_outputs :: "string \<Rightarrow> string list"

definition MIN_SDK_VERSION :: nat where
  "MIN_SDK_VERSION = 16"

text \<open>
  A \<^verbatim>\<open>shelljs\<close> command throws only when it fails under \<^verbatim>\<open>shell.config.fatal\<close>; a call
  of \<^verbatim>\<open>fs\<close> throws whenever it fails. \<open>steps\<close> runs statements in order up to the first
  one that throws.
\<close>

definition shell :: "host \<Rightarrow> bool \<Rightarrow> fs_op \<Rightarrow> unit io" where
  "shell h fatal op =
     call (Fs op) (if fatal \<and> op_fails h op then Rejected (Thrown ''shell'') else Fulfilled ())"

definition fs_call :: "host \<Rightarrow> fs_op \<Rightarrow> unit io" where
  "fs_call h op = call (Fs op) (if op_fails h op then Rejected (Thrown ''fs'') else Fulfilled ())"

definition emit :: "string \<Rightarrow> string \<Rightarrow> unit io" where
  "emit channel msg = call (Emit channel msg) (Fulfilled ())"

definition console_log :: "string \<Rightarrow> unit io" where
  "console_log msg = call (ConsoleLog msg) (Fulfilled ())"

definition throw :: "string \<Rightarrow> unit io" where
  "throw msg = (Rejected (Thrown msg), [])"

fun steps :: "unit io list \<Rightarrow> unit io" where
  "steps [] = resolve ()"
| "steps (m # ms) = then_io m (\<lambda>_. steps ms)"

definition getFrameworkDir :: "host \<Rightarrow> string \<Rightarrow> bool \<Rightarrow> string" where
  "getFrameworkDir h projectPath shared =
     (if shared then path_join [ROOT h, ''framework''] else path_join [projectPath, ''CordovaLib''])"

text \<open>The loop of \<open>copyJsAndLibrary\<close> over the old jars that \<^verbatim>\<open>shell.ls\<close> finds.\<close>

definition delete_old_jars :: "host \<Rightarrow> string \<Rightarrow> unit io" where
  "delete_old_jars h projectPath =
     steps (map (\<lambda>oldJar. steps [console_log (''Deleting '' @ oldJar),
                                  shell h False (ShellRm ''-f'' oldJar)])
                (shell_ls h (path_join [projectPath, ''libs'', ''cordova-*.jar''])))"

text \<open>
  \<open>copyJsAndLibrary\<close>. The old jars and the old library go under
  \<^verbatim>\<open>setShellFatal(false, ...)\<close>; \<^verbatim>\<open>fs.unlinkSync\<close> stands in a \<^verbatim>\<open>try\<close>, and \<open>wasSymlink\<close> is
  whether it went through.
\<close>

definition copyJsAndLibrary :: "host \<Rightarrow> bool \<Rightarrow> string \<Rightarrow> bool \<Rightarrow> string \<Rightarrow> unit io" where
  "copyJsAndLibrary h fatal projectPath shared projectName =
     (let nestedCordovaLibPath = getFrameworkDir h projectPath False;
          srcCordovaJsPath =
            path_join [ROOT h, ''bin'', ''templates'', ''project'', ''assets'', ''www'', ''cordova.js''];
          wasSymlink = \<not> op_fails h (FsUnlink nestedCordovaLibPath)
      in steps
          [shell h fatal (ShellCp ''-f'' srcCordovaJsPath
                            (path_join [projectPath, ''assets'', ''www'', ''cordova.js''])),
           shell h fatal (ShellMkdir ''-p'' (path_join [projectPath, ''platform_www''])),
           shell h fatal (ShellCp ''-f'' srcCordovaJsPath (path_join [projectPath, ''platform_www''])),
           shell h fatal (ShellCp ''-rf'' (path_join [ROOT h, ''cordova-js-src''])
                            (path_join [projectPath, ''platform_www''])),
           delete_old_jars h projectPath,
           call (Fs (FsUnlink nestedCordovaLibPath)) (Fulfilled ()),
           (if shared then shell h False (ShellRm ''-rf'' nestedCordovaLibPath)
            else if \<not> wasSymlink
            then shell h False (ShellRm ''-rf'' (path_join [nestedCordovaLibPath, ''src'']))
            else resolve ()),
           (if shared
            then fs_call h (FsSymlink (path_relative h projectPath (getFrameworkDir h projectPath True))
                              nestedCordovaLibPath)
            else steps
               [shell h fatal (ShellMkdir ''-p'' nestedCordovaLibPath),
                shell h fatal (ShellCp ''-f'' (path_join [ROOT h, ''framework'', ''AndroidManifest.xml''])
                                 nestedCordovaLibPath),
                shell h fatal (ShellCp ''-f'' (path_join [ROOT h, ''framework'', ''project.properties''])
                                 nestedCordovaLibPath),
                shell h fatal (ShellCp ''-f'' (path_join [ROOT h, ''framework'', ''build.gradle''])
                                 nestedCordovaLibPath),
                shell h fatal (ShellCp ''-f'' (path_join [ROOT h, ''framework'', ''cordova.gradle''])
                                 nestedCordovaLibPath),
                shell h fatal (ShellCp ''-r'' (path_join [ROOT h, ''framework'', ''src''])
                                 nestedCordovaLibPath),
                shell h fatal (ShellCp ''-f'' (path_join [ROOT h, ''framework'', ''gradlew''])
                                 nestedCordovaLibPath),
                shell h fatal (ShellCp ''-r'' (path_join [ROOT h, ''framework'', ''gradle''])
                                 nestedCordovaLibPath)])])"

text \<open>\<open>writeProjectProperties\<close>, \<open>prepBuildFiles\<close>, \<open>copyBuildRules\<close>, \<open>copyScripts\<close>\<close>

definition writeProjectProperties :: "host \<Rightarrow> string \<Rightarrow> string \<Rightarrow> unit io" where
  "writeProjectProperties h projectPath target_api =
     (let dstPath = path_join [projectPath, ''project.properties''];
          templatePath = path_join [ROOT h, ''bin'', ''templates'', ''project'', ''project.properties''];
          srcPath = (if existsSync h dstPath then dstPath else templatePath)
      in case readFileSync h srcPath of
           None \<Rightarrow> throw ''ENOENT''
         | Some data \<Rightarrow> fs_call h (FsWriteFile dstPath (project_properties_text target_api data)))"

definition prepBuildFiles :: "host \<Rightarrow> string \<Rightarrow> unit io" where
  "prepBuildFiles h projectPath =
     (let buildModule = path_resolve h [projectPath, ''cordova/lib/builders/builders'']
      in call (PrepBuildFiles buildModule ''gradle'')
              (if builder_throws h buildModule then Rejected (Thrown ''builder'') else Fulfilled ()))"

definition copyBuildRules :: "host \<Rightarrow> bool \<Rightarrow> string \<Rightarrow> unit io" where
  "copyBuildRules h fatal projectPath =
     (let srcDir = path_join [ROOT h, ''bin'', ''templates'', ''project'']
      in shell h fatal (ShellCp ''-f'' (path_join [srcDir, ''build.gradle'']) projectPath))"

definition copyScripts :: "host \<Rightarrow> bool \<Rightarrow> string \<Rightarrow> unit io" where
  "copyScripts h fatal projectPath =
     (let srcScriptsDir = path_join [ROOT h, ''bin'', ''templates'', ''cordova''];
          destScriptsDir = path_join [projectPath, ''cordova'']
      in steps
          [shell h fatal (ShellRm ''-rf'' destScriptsDir),
           shell h fatal (ShellCp ''-r'' srcScriptsDir projectPath),
           shell h fatal (ShellCp ''-r'' (path_join [ROOT h, ''node_modules'']) destScriptsDir),
           shell h fatal (ShellCp '''' (path_join [ROOT h, ''bin'', ''check_reqs*'']) destScriptsDir),
           shell h fatal (ShellCp '''' (path_join [ROOT h, ''bin'', ''lib'', ''check_reqs.js''])
                            (path_join [projectPath, ''cordova'', ''lib'', ''check_reqs.js''])),
           shell h fatal (ShellCp '''' (path_join [ROOT h, ''bin'', ''android_sdk_version''])
                            (path_join [destScriptsDir, ''android_sdk_version''])),
           shell h fatal (ShellCp '''' (path_join [ROOT h, ''bin'', ''lib'', ''android_sdk_version.js''])
                            (path_join [projectPath, ''cordova'', ''lib'', ''android_sdk_version.js'']))])"

definition generateDoneMessage :: "host \<Rightarrow> string \<Rightarrow> bool \<Rightarrow> string" where
  "generateDoneMessage h type linked =
     (let msg = ''Android project '' @ (if type = ''update'' then ''updated '' else ''created '') @
                ''with '' @ pkg_name h @ ''@'' @ pkg_version h
      in if linked then msg @ '' and has a linked CordovaLib'' else msg)"

text \<open>
  The project configuration (a \<^verbatim>\<open>ConfigParser\<close>) and the options of \<open>create\<close> and
  \<open>update\<close>; a missing value is \<^verbatim>\<open>undefined\<close>, \<open>opt_link\<close> is the truth value of
  \<^verbatim>\<open>options.link\<close>.
\<close>

record config =
  cfg_packageName :: "string option"
  cfg_name :: "string option"
  cfg_android_activityName :: "string option"

record create_options =
  opt_activityName :: "string option"
  opt_link :: bool
  opt_customTemplate :: "string option"

definition no_options :: create_options where
  "no_options = \<lparr> opt_activityName = None, opt_link = False, opt_customTemplate = None \<rparr>"

definition str_or_default :: "string option \<Rightarrow> string \<Rightarrow> string" where
  "str_or_default a d = (case a of None \<Rightarrow> d | Some s \<Rightarrow> if s = '''' then d else s)"

text \<open>A statement whose value is not used: the value is computed and dropped.\<close>

definition ignoring :: "'a \<Rightarrow> 'b \<Rightarrow> 'b" where
  "ignoring unused result = result"

text \<open>\<^verbatim>\<open>/[^\w.]/g\<close> and \<^verbatim>\<open>/\./g\<close>\<close>

definition unsafe_name_char_re :: regex where
  "unsafe_name_char_re = RCls (\<lambda>c. \<not> (is_word_char c \<or> c = CHR ''.''))"

definition dot_re :: regex where
  "dot_re = RCls (\<lambda>c. c = CHR ''.'')"

text \<open>\<^verbatim>\<open>s.split('-')[1]\<close>: the second piece, when there is one.\<close>

fun split_on :: "char \<Rightarrow> string \<Rightarrow> string list" where
  "split_on sep [] = [[]]"
| "split_on sep (c # cs) =
     (if c = sep then [] # split_on sep cs
      else (case split_on sep cs of p # ps \<Rightarrow> (c # p) # ps | [] \<Rightarrow> [[c]]))"

definition second_piece :: "string list \<Rightarrow> jsval" where
  "second_piece ps = (if 1 < length ps then JStr (ps ! 1) else JUndefined)"

text \<open>
  The body of the last callback of \<open>create\<close>: the log, then the template under
  \<^verbatim>\<open>setShellFatal(true, ...)\<close>, then the properties file and the build files.
\<close>

definition scaffold ::
  "host \<Rightarrow> string \<Rightarrow> create_options \<Rightarrow> string \<Rightarrow> string \<Rightarrow> string \<Rightarrow> string \<Rightarrow> unit io" where
  "scaffold h project_path options package_name project_name safe_activity_name target_api =
     (let project_template_dir =
            str_or_default (opt_customTemplate options) (path_join [ROOT h, ''bin'', ''templates'', ''project'']);
          app_path = path_join [project_path, ''app'', ''src'', ''main''];
          java_path = path_join [app_path, ''java''];
          assets_path = path_join [app_path, ''assets''];
          resource_path = path_join [app_path, ''res''];
          packagePath = replace_all dot_re ''/'' package_name;
          activity_dir = path_join [java_path, packagePath];
          activity_path = path_join [activity_dir, safe_activity_name @ ''.java''];
          manifest_path = path_join [app_path, ''AndroidManifest.xml'']
      in steps
          [emit ''log'' ''Creating Cordova project for the Android platform:'',
           emit ''log'' ([CHR 0x09] @ ''Path: '' @ project_path),
           emit ''log'' ([CHR 0x09] @ ''Package: '' @ package_name),
           emit ''log'' ([CHR 0x09] @ ''Name: '' @ project_name),
           emit ''log'' ([CHR 0x09] @ ''Activity: '' @ safe_activity_name),
           emit ''log'' ([CHR 0x09] @ ''Android target: '' @ target_api),
           emit ''verbose'' (''Copying android template project to '' @ project_path),
           shell h True (ShellCp ''-r'' (path_join [project_template_dir, ''assets'']) project_path),
           shell h True (ShellCp ''-r'' (path_join [project_template_dir, ''res'']) project_path),
           shell h True (ShellCp '''' (path_join [project_template_dir, ''gitignore''])
                           (path_join [project_path, ''.gitignore''])),
           shell h True (ShellMkdir '''' (path_join [project_path, ''libs''])),
           copyJsAndLibrary h True project_path (opt_link options) safe_activity_name,
           shell h True (ShellMkdir ''-p'' java_path),
           shell h True (ShellMkdir ''-p'' assets_path),
           shell h True (ShellMkdir ''-p'' resource_path),
           shell h True (ShellMkdir ''-p'' activity_dir),
           shell h True (ShellCp ''-f'' (path_join [project_template_dir, ''Activity.java'']) activity_path),
           shell h True (ShellSed ''-i'' ''/__ACTIVITY__/'' safe_activity_name activity_path),
           shell h True (ShellSed ''-i'' ''/__NAME__/'' project_name
                           (path_join [project_path, ''res'', ''values'', ''strings.xml''])),
           shell h True (ShellSed ''-i'' ''/__ID__/'' package_name activity_path),
           (case loadManifest h (path_join [project_template_dir, ''AndroidManifest.xml'']) of
              None \<Rightarrow> throw ''AndroidManifest''
            | Some manifest \<Rightarrow>
                fs_call h (ManifestWrite manifest_path
                   (manifest \<lparr> packageId := package_name,
                               targetSdkVersion := second_piece (split_on CHR ''-'' target_api),
                               activityName := safe_activity_name \<rparr>))),
           copyScripts h True project_path,
           copyBuildRules h True project_path,
           writeProjectProperties h project_path target_api,
           prepBuildFiles h project_path,
           emit ''log'' (generateDoneMessage h ''create'' (opt_link options))])"

text \<open>
  \<open>create\<close>. The callback between the two validations calls \<open>validateProjectName\<close>
  and does not return what it gets.
\<close>

definition create ::
  "host \<Rightarrow> string option \<Rightarrow> config \<Rightarrow> create_options option \<Rightarrow> string io" where
  "create h project_path config options =
     (let options = (case options of None \<Rightarrow> no_options | Some opts \<Rightarrow> opts);
          project_path = relative_to_cwd h (str_or_default project_path ''CordovaExample'')
      in if existsSync h project_path
         then (Rejected (CordovaError ''Project already exists! Delete and recreate''), [])
         else
           let package_name = str_or_default (cfg_packageName config) ''my.cordova.project'';
               project_name =
                 (if str_truthy (cfg_name config)
                  then replace_all unsafe_name_char_re ''_''
                         (the (cfg_name config))
                  else ''CordovaExample'');
               safe_activity_name =
                 str_or_default
                   (str_or (cfg_android_activityName config) (opt_activityName options))
                   ''MainActivity'';
               target_api = get_target h
           in thenResolve
                (then_io
                   (then_io (validatePackageName package_name, [])
                      (\<lambda>_. ignoring (validateProjectName project_name) (resolve ())))
                   (\<lambda>_. scaffold h project_path options package_name project_name
                           safe_activity_name target_api))
                project_path)"

text \<open>
  \<open>update\<close>. The manifest is the one at the top of the project; the minimum SDK is set
  to \<open>MIN_SDK_VERSION\<close> when \<^verbatim>\<open>Number\<close> of the declared one is below it.
\<close>

definition raise_min_sdk :: "manifest \<Rightarrow> bool" where
  "raise_min_sdk manifest =
     js_less (js_Number (minSdkVersion manifest)) (JNum (of_nat MIN_SDK_VERSION))"

definition updated_manifest :: "manifest \<Rightarrow> manifest" where
  "updated_manifest manifest =
     (let manifest = (if raise_min_sdk manifest
                      then manifest \<lparr> minSdkVersion := show_nat MIN_SDK_VERSION \<rparr> else manifest)
      in manifest \<lparr> debuggable := False \<rparr>)"

definition update :: "host \<Rightarrow> string \<Rightarrow> create_options option \<Rightarrow> string io" where
  "update h projectPath options =
     (let options = (case options of None \<Rightarrow> no_options | Some opts \<Rightarrow> opts)
      in thenResolve
           (then_io (resolve ())
              (\<lambda>_. case loadManifest h (path_join [projectPath, ''AndroidManifest.xml'']) of
                      None \<Rightarrow> throw ''AndroidManifest''
                    | Some manifest \<Rightarrow>
                        let projectName = activityName (updated_manifest manifest);
                            target_api = get_target h
                        in steps
                            [(if raise_min_sdk manifest
                              then emit ''verbose'' (''Updating minSdkVersion to '' @ show_nat MIN_SDK_VERSION @
                                                   '' in AndroidManifest.xml'')
                              else resolve ()),
                             fs_call h (ManifestWrite (path_join [projectPath, ''AndroidManifest.xml''])
                                          (updated_manifest manifest)),
                             copyJsAndLibrary h (shell_config_fatal h) projectPath (opt_link options) projectName,
                             copyScripts h (shell_config_fatal h) projectPath,
                             copyBuildRules h (shell_config_fatal h) projectPath,
                             writeProjectProperties h projectPath target_api,
                             prepBuildFiles h projectPath,
                             emit ''log'' (generateDoneMessage h ''update'' (opt_link options))]))
           projectPath)"

text \<open>
  \<^verbatim>\<open>Api.createPlatform\<close> and \<^verbatim>\<open>Api.updatePlatform\<close>: the scaffolder, then a facade on the
  destination. Its root is the directory above the destination's \<^verbatim>\<open>cordova\<close> directory.
\<close>

definition new_PlatformApi :: "host \<Rightarrow> collaborators \<Rightarrow> string \<Rightarrow> api io" where
  "new_PlatformApi h w destination =
     (case Api w (path_resolve h [destination]) of (self, t) \<Rightarrow> (Fulfilled self, t))"

definition createPlatform ::
  "host \<Rightarrow> collaborators \<Rightarrow> string option \<Rightarrow> config \<Rightarrow> create_options option \<Rightarrow> api io" where
  "createPlatform h w destination config options =
     then_io (create h destination config options) (\<lambda>destination. new_PlatformApi h w destination)"

definition updatePlatform ::
  "host \<Rightarrow> collaborators \<Rightarrow> string \<Rightarrow> create_options option \<Rightarrow> api io" where
  "updatePlatform h w destination options =
     then_io (update h destination options) (\<lambda>destination. new_PlatformApi h w destination)"

text \<open>A machine with nothing at the destination, and a configuration for it.\<close>

definition template_manifest :: manifest where
  "template_manifest =
     \<lparr> packageId = ''__PACKAGE__'', minSdkVersion = ''16'', targetSdkVersion = JUndefined,
       debuggable = False, activityName = ''__ACTIVITY__'' \<rparr>"

definition template_properties :: string where
  "template_properties = lines_text [''# Project target.'', ''target=This_gets_replaced'']"

definition fresh_host :: host where
  "fresh_host =
     \<lparr> ROOT = ''/opt/cordova-android'',
       relative_to_cwd = (\<lambda>p. p),
       path_relative = (\<lambda>origin dest. dest),
       path_resolve = (\<lambda>segs. path_join (''/work'' # segs)),
       existsSync = (\<lambda>p. False),
       readFileSync = (\<lambda>p. if p = ''/opt/cordova-android/bin/templates/project/project.properties''
                          then Some template_properties else None),
       shell_ls = (\<lambda>p. []),
       loadManifest = (\<lambda>p. if p = ''/opt/cordova-android/bin/templates/project/AndroidManifest.xml''
                           then Some template_manifest else None),
       get_target = ''android-25'',
       pkg_name = ''cordova-android'',
       pkg_version = ''6.3.0'',
       op_fails = (\<lambda>op. case op of FsUnlink _ \<Rightarrow> True | _ \<Rightarrow> False),
       builder_throws = (\<lambda>m. False),
       shell_config_fatal = False,
       is_directory = (\<lambda>p. False),
       builder_outputs = (\<lambda>m. []) \<rparr>"

text \<open>
  A machine with a project at \<^verbatim>\<open>platforms/android\<close>: a manifest written for API level 14
  with the debuggable flag set, a properties file whose last line has no line end, and
  an old jar.
\<close>

definition old_manifest :: manifest where
  "old_manifest =
     \<lparr> packageId = ''com.example.app'', minSdkVersion = ''14'', targetSdkVersion = JStr ''25'',
       debuggable = True, activityName = ''MainActivity'' \<rparr>"

definition unterminated_properties :: string where
  "unterminated_properties =
     lines_text [''target=android-19''] @ ''android.library.reference.1=CordovaLib''"

definition terminated_properties :: string where
  "terminated_properties =
     lines_text [''target=android-19'', ''android.library.reference.1=CordovaLib'',
                 ''android.library.reference.2=../lib'', ''android.library.reference.3=../lib'']"

definition existing_project_host :: host where
  "existing_project_host =
     fresh_host
       \<lparr> existsSync := (\<lambda>p. p = ''platforms/android/project.properties''),
         readFileSync := (\<lambda>p. if p = ''platforms/android/project.properties''
                                then Some unterminated_properties else None),
         shell_ls := (\<lambda>p. if p = ''platforms/android/libs/cordova-*.jar''
                            then [''platforms/android/libs/cordova-5.0.0.jar''] else []),
         loadManifest := (\<lambda>p. if p = ''platforms/android/AndroidManifest.xml''
                                then Some old_manifest else None),
         is_directory := (\<lambda>p. p = ''platforms/android''),
         builder_outputs := (\<lambda>m. [''platforms/android/settings.gradle'']) \<rparr>"

text \<open>The same project with another declared minimum SDK version.\<close>

definition project_declaring :: "string \<Rightarrow> host" where
  "project_declaring v =
     existing_project_host
       \<lparr> loadManifest := (\<lambda>p. if p = ''platforms/android/AndroidManifest.xml''
                                then Some (old_manifest \<lparr> minSdkVersion := v \<rparr>) else None) \<rparr>"

definition reserved_name_config :: config where
  "reserved_name_config =
     \<lparr> cfg_packageName = Some ''com.example.app'', cfg_name = Some ''CordovaActivity'',
       cfg_android_activityName = None \<rparr>"

definition fs_ops :: "event list \<Rightarrow> fs_op list" where
  "fs_ops t = List.map_filter (\<lambda>e. case e of Fs op \<Rightarrow> Some op | _ \<Rightarrow> None) t"

definition manifest_writes :: "event list \<Rightarrow> (string \<times> manifest) list" where
  "manifest_writes t =
     List.map_filter (\<lambda>e. case e of Fs (ManifestWrite p m) \<Rightarrow> Some (p, m) | _ \<Rightarrow> None) t"

definition not_manifest_write :: "event \<Rightarrow> bool" where
  "not_manifest_write e = (case e of Fs (ManifestWrite p m) \<Rightarrow> False | _ \<Rightarrow> True)"

section \<open>Where an operation lands\<close>

text \<open>
  A path \<open>t\<close> lies under \<open>a\<close> when it is \<open>a\<close> or below the directory \<open>a\<close>. An operation
  changes what lies at or below its targets: the destination for \<^verbatim>\<open>mkdir\<close>, \<^verbatim>\<open>rm\<close>,
  \<^verbatim>\<open>sed\<close>, \<^verbatim>\<open>unlink\<close>, \<^verbatim>\<open>symlink\<close> and the two writes; for \<^verbatim>\<open>cp\<close> the entry named
  like the source inside the destination when the destination is a directory at the
  time of the copy (\<open>is_directory\<close>), and the destination itself otherwise. The
  builder changes its outputs. Events and console lines change nothing on disk.
\<close>

definition under :: "string \<Rightarrow> string \<Rightarrow> bool" where
  "under a t = (t = a \<or> prefix (a @ ''/'') t)"

definition basename :: "string \<Rightarrow> string" where
  "basename p = rev (takeWhile (\<lambda>c. c \<noteq> CHR ''/'') (rev p))"

definition op_targets :: "host \<Rightarrow> fs_op \<Rightarrow> string list" where
  "op_targets h op =
     (case op of
        ShellCp flags src dst \<Rightarrow>
          if is_directory h dst then [path_join [dst, basename src]] else [dst]
      | ShellMkdir flags dir \<Rightarrow> [dir]
      | ShellRm flags p \<Rightarrow> [p]
      | ShellSed flags pattern repl file \<Rightarrow> [file]
      | FsUnlink p \<Rightarrow> [p]
      | FsSymlink target p \<Rightarrow> [p]
      | FsWriteFile p content \<Rightarrow> [p]
      | ManifestWrite p doc \<Rightarrow> [p])"

definition event_targets :: "host \<Rightarrow> event \<Rightarrow> string list" where
  "event_targets h e =
     (case e of
        Fs op \<Rightarrow> op_targets h op
      | PrepBuildFiles buildModule b \<Rightarrow> builder_outputs h buildModule
      | _ \<Rightarrow> [])"

definition touches :: "host \<Rightarrow> event \<Rightarrow> string \<Rightarrow> bool" where
  "touches h e q = (\<exists>t \<in> set (event_targets h e). under t q)"

text \<open>
  The parts of a project that \<open>update\<close> refreshes: the script and library areas and the
  generated files, and whatever the project's builder regenerates.
\<close>

definition refreshed_areas :: "string \<Rightarrow> string list" where
  "refreshed_areas projectPath =
     [path_join [projectPath, ''assets'', ''www'', ''cordova.js''],
      path_join [projectPath, ''platform_www''],
      path_join [projectPath, ''libs''],
      path_join [projectPath, ''CordovaLib''],
      path_join [projectPath, ''cordova''],
      path_join [projectPath, ''build.gradle''],
      path_join [projectPath, ''project.properties'']]"

definition builder_area :: "host \<Rightarrow> string \<Rightarrow> string \<Rightarrow> bool" where
  "builder_area h projectPath q =
     (\<exists>b \<in> set (builder_outputs h (path_resolve h [projectPath, ''cordova/lib/builders/builders''])).
         under b q)"

definition in_refreshed_area :: "host \<Rightarrow> string \<Rightarrow> string \<Rightarrow> bool" where
  "in_refreshed_area h projectPath q =
     ((\<exists>a \<in> set (refreshed_areas projectPath). under a q) \<or> builder_area h projectPath q)"

text \<open>Where a project keeps its own Java sources, in either layout.\<close>

definition java_source :: "string \<Rightarrow> string \<Rightarrow> bool" where
  "java_source projectPath q =
     (under (path_join [projectPath, ''src'']) q \<or>
      under (path_join [projectPath, ''app'', ''src'', ''main'', ''java'']) q)"

definition manifest_path :: "string \<Rightarrow> string" where
  "manifest_path projectPath = path_join [projectPath, ''AndroidManifest.xml'']"

definition within_refreshed :: "host \<Rightarrow> string \<Rightarrow> event \<Rightarrow> bool" where
  "within_refreshed h projectPath e =
     (\<forall>t \<in> set (event_targets h e). in_refreshed_area h projectPath t)"

section \<open>Facts about the matcher\<close>

lemma rmatch_bounds:
  "(j, cs') \<in> set (rmatch r inp (i, cs)) \<Longrightarrow> i \<le> length inp \<Longrightarrow> i \<le> j \<and> j \<le> length inp"
proof (induction r inp "(i, cs)" arbitrary: i cs j cs' rule: rmatch.induct)
  case (3 a b inp)
  from "3.prems"(1) obtain k ck where mid: "(k, ck) \<in> set (rmatch a inp (i, cs))"
    and fin: "(j, cs') \<in> set (rmatch b inp (k, ck))"
    by auto
  from "3.hyps"(1)[OF mid "3.prems"(2)] have k: "i \<le> k" "k \<le> length inp" by auto
  from "3.hyps"(2)[OF mid fin k(2)] k show ?case by auto
next
  case (5 a inp i cs)
  from "5.prems"(1) have "(j, cs') \<in> set (concat (map (\<lambda>st'. rmatch (RStar a) inp st')
                 (filter (\<lambda>st'. i < fst st' \<and> fst st' \<le> length inp) (rmatch a inp (i, cs))))
     @ [(i, cs)])"
    by (simp only: rmatch_star)
  then consider
      (stop) "j = i" |
      (iter) k ck where "(k, ck) \<in> set (rmatch a inp (i, cs))" "i < k" "k \<le> length inp"
                        "(j, cs') \<in> set (rmatch (RStar a) inp (k, ck))"
    by auto
  then show ?case
  proof cases
    case stop
    with "5.prems" show ?thesis by simp
  next
    case iter
    have "(k, ck) \<in> set (filter (\<lambda>st'. i < fst st' \<and> fst st' \<le> length inp) (rmatch a inp (i, cs)))"
      using iter by simp
    from "5.hyps"(2)[OF this iter(4) iter(3)] iter(2) show ?thesis by auto
  qed
qed (auto split: if_splits)

lemma re_search_None_iff:
  "re_search r inp i = None \<longleftrightarrow> (\<forall>k. i \<le> k \<and> k \<le> length inp \<longrightarrow> rmatch r inp (k, []) = [])"
proof (induction r inp i rule: re_search.induct)
  case (1 r inp i)
  show ?case
  proof (cases "length inp < i")
    case True
    then show ?thesis by (subst re_search.simps) auto
  next
    case False
    show ?thesis
    proof (cases "rmatch r inp (i, [])")
      case Nil
      have "(\<forall>k. Suc i \<le> k \<and> k \<le> length inp \<longrightarrow> rmatch r inp (k, []) = [])
            \<longleftrightarrow> (\<forall>k. i \<le> k \<and> k \<le> length inp \<longrightarrow> rmatch r inp (k, []) = [])"
        using Nil by (metis Suc_leD Suc_leI le_neq_implies_less)
      with 1[OF False Nil] Nil False show ?thesis
        by (subst re_search.simps) simp
    next
      case (Cons st rest)
      with False show ?thesis
        by (subst re_search.simps) (auto intro: exI[of _ i])
    qed
  qed
qed

lemma re_test_iff:
  "re_test r inp \<longleftrightarrow> (\<exists>k\<le>length inp. rmatch r inp (k, []) \<noteq> [])"
  unfolding re_test_def re_search_None_iff by auto

lemma leading_digit_test:
  "re_test leading_digit_re s \<longleftrightarrow> (\<exists>c cs. s = c # cs \<and> is_digit c)"
proof -
  have "rmatch leading_digit_re s (k, []) \<noteq> [] \<longleftrightarrow> k = 0 \<and> (\<exists>c cs. s = c # cs \<and> is_digit c)" for k
    by (cases s) (auto simp: leading_digit_re_def)
  then show ?thesis
    by (auto simp: re_test_iff)
qed

lemma slice_append:
  "i \<le> k \<Longrightarrow> k \<le> j \<Longrightarrow> j \<le> length inp \<Longrightarrow>
   take (j - i) (drop i inp) = take (k - i) (drop i inp) @ take (j - k) (drop k inp)"
proof -
  assume a: "i \<le> k" "k \<le> j" "j \<le> length inp"
  have "take (j - i) (drop i inp) = take ((k - i) + (j - k)) (drop i inp)"
    using a by simp
  also have "\<dots> = take (k - i) (drop i inp) @ take (j - k) (drop (k - i) (drop i inp))"
    by (rule take_add)
  also have "drop (k - i) (drop i inp) = drop k inp"
    using a by simp
  finally show ?thesis .
qed

lemma rmatch_sound:
  "(j, cs') \<in> set (rmatch r inp (i, cs)) \<Longrightarrow> anchor_free r \<Longrightarrow> i \<le> length inp \<Longrightarrow>
   matches r (take (j - i) (drop i inp))"
proof (induction r inp "(i, cs)" arbitrary: i cs j cs' rule: rmatch.induct)
  case (1 inp)
  then show ?case by (auto intro: matches.intros)
next
  case (2 p inp i cs)
  then have "i < length inp" "p (inp ! i)" "j = Suc i" by (auto split: if_splits)
  then have "take (j - i) (drop i inp) = [inp ! i]"
    by (simp add: take_Suc_conv_app_nth hd_drop_conv_nth take_Suc)
  with \<open>p (inp ! i)\<close> show ?case by (auto intro: matches.intros)
next
  case (3 a b inp)
  from "3.prems"(1) obtain k ck where mid: "(k, ck) \<in> set (rmatch a inp (i, cs))"
    and fin: "(j, cs') \<in> set (rmatch b inp (k, ck))"
    by auto
  from "3.prems" have af: "anchor_free a" "anchor_free b" by auto
  from rmatch_bounds[OF mid "3.prems"(3)] have k: "i \<le> k" "k \<le> length inp" by auto
  from rmatch_bounds[OF fin k(2)] have j: "k \<le> j" "j \<le> length inp" by auto
  have ma: "matches a (take (k - i) (drop i inp))"
    by (rule "3.hyps"(1)[OF mid af(1) "3.prems"(3)])
  have mb: "matches b (take (j - k) (drop k inp))"
    by (rule "3.hyps"(2)[OF mid fin af(2) k(2)])
  show ?case
    unfolding slice_append[OF k(1) j(1) j(2)] by (rule m_seq[OF ma mb])
next
  case (4 a b inp)
  then show ?case by (auto intro: matches.intros)
next
  case (5 a inp i cs)
  from "5.prems"(1) have "(j, cs') \<in> set (concat (map (\<lambda>st'. rmatch (RStar a) inp st')
                 (filter (\<lambda>st'. i < fst st' \<and> fst st' \<le> length inp) (rmatch a inp (i, cs))))
     @ [(i, cs)])"
    by (simp only: rmatch_star)
  then consider
      (stop) "j = i" |
      (iter) k ck where "(k, ck) \<in> set (rmatch a inp (i, cs))" "i < k" "k \<le> length inp"
                        "(j, cs') \<in> set (rmatch (RStar a) inp (k, ck))"
    by auto
  then show ?case
  proof cases
    case stop
    then show ?thesis by (auto intro: matches.intros)
  next
    case iter
    from "5.prems" have af: "anchor_free a" by simp
    have flt: "(k, ck) \<in> set (filter (\<lambda>st'. i < fst st' \<and> fst st' \<le> length inp) (rmatch a inp (i, cs)))"
      using iter by simp
    from rmatch_bounds[OF iter(4) iter(3)] have j: "k \<le> j" "j \<le> length inp" by auto
    have ma: "matches a (take (k - i) (drop i inp))"
      by (rule "5.hyps"(1)[OF iter(1) af "5.prems"(3)])
    have ms: "matches (RStar a) (take (j - k) (drop k inp))"
      by (rule "5.hyps"(2)[OF flt iter(4) "5.prems"(2) iter(3)])
    have ik: "i \<le> k" using iter(2) by simp
    show ?thesis
      unfolding slice_append[OF ik j(1) j(2)] by (rule m_star[OF ma ms])
  qed
next
  case (6 k a inp i cs)
  then show ?case by (auto intro: matches.intros)
qed auto

lemma in_concat_mapI: "x \<in> set xs \<Longrightarrow> y \<in> set (f x) \<Longrightarrow> y \<in> set (concat (map f xs))"
  by auto

lemma rmatch_complete:
  "matches r w \<Longrightarrow> \<exists>cs'. (length pre + length w, cs') \<in> set (rmatch r (pre @ w @ post) (length pre, cs))"
proof (induction r w arbitrary: pre post cs rule: matches.induct)
  case m_eps
  then show ?case by simp
next
  case (m_cls p c)
  then show ?case by (simp add: nth_append)
next
  case (m_seq a u b v)
  from m_seq.IH(1)[of pre "v @ post" cs] obtain c1 where
    1: "(length pre + length u, c1) \<in> set (rmatch a (pre @ u @ v @ post) (length pre, cs))" by auto
  from m_seq.IH(2)[of "pre @ u" post c1] obtain c2 where
    2: "(length pre + length u + length v, c2) \<in> set (rmatch b (pre @ u @ v @ post) (length pre + length u, c1))"
    by auto
  from 1 2 show ?case by (auto simp: add.assoc intro!: exI[of _ c2] bexI[of _ "(length pre + length u, c1)"])
next
  case (m_alt1 a u b)
  from m_alt1.IH[of pre post cs] show ?case by auto
next
  case (m_alt2 b u a)
  from m_alt2.IH[of pre post cs] show ?case by auto
next
  case (m_star0 a)
  show ?case by (subst rmatch_star) (auto intro: exI[of _ cs])
next
  case (m_star a u v)
  show ?case
  proof (cases "u = []")
    case True
    with m_star.IH(2)[of pre post cs] show ?thesis by simp
  next
    case False
    from m_star.IH(1)[of pre "v @ post" cs] obtain c1 where
      1: "(length pre + length u, c1) \<in> set (rmatch a (pre @ u @ v @ post) (length pre, cs))" by auto
    from m_star.IH(2)[of "pre @ u" post c1] obtain c2 where
      2: "(length pre + length u + length v, c2) \<in> set (rmatch (RStar a) (pre @ u @ v @ post) (length pre + length u, c1))"
      by auto
    from False have "length pre < length pre + length u" by simp
    with 1 have flt: "(length pre + length u, c1) \<in> set (filter (\<lambda>st'. length pre < fst st' \<and> fst st' \<le> length (pre @ (u @ v) @ post))
             (rmatch a (pre @ (u @ v) @ post) (length pre, cs)))" by simp
    from 2 have two: "(length pre + length (u @ v), c2) \<in> set (rmatch (RStar a) (pre @ (u @ v) @ post) (length pre + length u, c1))"
      by (simp add: add.assoc)
    have "(length pre + length (u @ v), c2) \<in> set (rmatch (RStar a) (pre @ (u @ v) @ post) (length pre, cs))"
      by (subst rmatch_star)
         (simp only: set_append UnI1
            in_concat_mapI[where f = "\<lambda>st'. rmatch (RStar a) (pre @ (u @ v) @ post) st'", OF flt two])
    then show ?thesis by blast
  qed
next
  case (m_grp a u k)
  from m_grp.IH[of pre post cs] obtain c1 where
    "(length pre + length u, c1) \<in> set (rmatch a (pre @ u @ post) (length pre, cs))" by auto
  then show ?case by (force intro!: exI[of _ "(k, u) # c1"] simp: image_iff)
qed

lemma anchored_test:
  assumes "anchor_free g"
  shows "re_test (RSeq RBos (RSeq g REos)) s \<longleftrightarrow> matches g s"
proof
  assume "re_test (RSeq RBos (RSeq g REos)) s"
  then obtain k where "rmatch (RSeq RBos (RSeq g REos)) s (k, []) \<noteq> []"
    by (auto simp: re_test_iff)
  then have "k = 0" and ne: "rmatch (RSeq g REos) s (0, []) \<noteq> []"
    by (auto split: if_splits)
  from ne obtain j c where jc: "(j, c) \<in> set (rmatch g s (0, []))" and e: "rmatch REos s (j, c) \<noteq> []"
    by auto
  from e have "j = length s" by (auto split: if_splits)
  with rmatch_sound[OF jc assms] show "matches g s" by simp
next
  assume "matches g s"
  from rmatch_complete[OF this, of "[]" "[]" "[]"] obtain c where
    "(length s, c) \<in> set (rmatch g s (0, []))" by auto
  then have "rmatch (RSeq RBos (RSeq g REos)) s (0, []) \<noteq> []"
    by (auto intro!: bexI[of _ "(length s, c)"])
  then show "re_test (RSeq RBos (RSeq g REos)) s"
    unfolding re_test_iff by blast
qed

inductive_simps matches_eps [simp]: "matches REps w"
inductive_simps matches_cls [simp]: "matches (RCls p) w"
inductive_simps matches_seq: "matches (RSeq a b) w"
inductive_simps matches_grp [simp]: "matches (RGrp k a) w"

lemma matches_seq_cls:
  "matches (RSeq (RCls p) b) w \<longleftrightarrow> (\<exists>c v. w = c # v \<and> p c \<and> matches b v)"
proof
  assume "matches (RSeq (RCls p) b) w"
  then show "\<exists>c v. w = c # v \<and> p c \<and> matches b v"
    by (auto simp: matches_seq)
next
  assume "\<exists>c v. w = c # v \<and> p c \<and> matches b v"
  then obtain c v where "w = [c] @ v" "matches (RCls p) [c]" "matches b v" by auto
  then show "matches (RSeq (RCls p) b) w"
    using m_seq by blast
qed

lemma matches_seq_eps [simp]: "matches (RSeq a REps) w \<longleftrightarrow> matches a w"
  by (auto simp: matches_seq)

lemma matches_star_concat:
  "(\<forall>u\<in>set ws. matches a u) \<Longrightarrow> matches (RStar a) (concat ws)"
  by (induction ws) (auto intro: matches.intros)

lemma matches_star_split:
  "matches r w \<Longrightarrow> r = RStar a \<Longrightarrow> \<exists>ws. w = concat ws \<and> (\<forall>u\<in>set ws. matches a u)"
proof (induction r w rule: matches.induct)
  case (m_star0 b)
  show ?case by (rule exI[of _ "[]"]) simp
next
  case (m_star b u v)
  then obtain ws where "v = concat ws" "\<forall>x\<in>set ws. matches a x" by auto
  with m_star show ?case by (intro exI[of _ "u # ws"]) auto
qed auto

lemma matches_star_iff:
  "matches (RStar a) w \<longleftrightarrow> (\<exists>ws. w = concat ws \<and> (\<forall>u\<in>set ws. matches a u))"
  using matches_star_split matches_star_concat by blast

lemma concat_singletons: "(\<forall>u\<in>set ws. \<exists>c. u = [c] \<and> p c) \<Longrightarrow> \<forall>c\<in>set (concat ws). p c"
  by (induction ws) auto

lemma matches_star_cls:
  "matches (RStar (RCls p)) w \<longleftrightarrow> (\<forall>c\<in>set w. p c)"
proof
  assume "matches (RStar (RCls p)) w"
  then obtain ws where "w = concat ws" "\<forall>u\<in>set ws. \<exists>c. u = [c] \<and> p c"
    by (auto simp: matches_star_iff)
  then show "\<forall>c\<in>set w. p c" using concat_singletons by blast
next
  assume a: "\<forall>c\<in>set w. p c"
  have "w = concat (map (\<lambda>c. [c]) w)" by (induction w) auto
  moreover have "\<forall>u\<in>set (map (\<lambda>c. [c]) w). matches (RCls p) u" using a by auto
  ultimately show "matches (RStar (RCls p)) w" by (metis matches_star_concat)
qed

lemma matches_plus_iff:
  "matches (RPlus a) w \<longleftrightarrow> (\<exists>ws. ws \<noteq> [] \<and> w = concat ws \<and> (\<forall>u\<in>set ws. matches a u))"
proof
  assume "matches (RPlus a) w"
  then obtain u v where "w = u @ v" "matches a u" "matches (RStar a) v"
    by (auto simp: RPlus_def matches_seq)
  moreover then obtain ws where "v = concat ws" "\<forall>x\<in>set ws. matches a x"
    by (auto simp: matches_star_iff)
  ultimately show "\<exists>ws. ws \<noteq> [] \<and> w = concat ws \<and> (\<forall>u\<in>set ws. matches a u)"
    by (intro exI[of _ "u # ws"]) auto
next
  assume "\<exists>ws. ws \<noteq> [] \<and> w = concat ws \<and> (\<forall>u\<in>set ws. matches a u)"
  then obtain u ws where "w = u @ concat ws" "matches a u" "\<forall>x\<in>set ws. matches a x"
    by (metis concat.simps(2) list.exhaust list.set_intros(1,2))
  then show "matches (RPlus a) w"
    unfolding RPlus_def by (auto intro!: m_seq matches_star_concat)
qed

lemma matches_plus_cls:
  "matches (RPlus (RCls p)) w \<longleftrightarrow> w \<noteq> [] \<and> (\<forall>c\<in>set w. p c)"
proof -
  have "matches (RPlus (RCls p)) w \<longleftrightarrow> (\<exists>c v. w = c # v \<and> p c \<and> (\<forall>d\<in>set v. p d))"
    by (simp add: RPlus_def matches_seq_cls matches_star_cls)
  also have "\<dots> \<longleftrightarrow> w \<noteq> [] \<and> (\<forall>c\<in>set w. p c)"
    by (cases w) auto
  finally show ?thesis .
qed

lemma matches_segment:
  "matches (seqs [RCls (\<lambda>c. c = CHR ''.''), RCls is_alpha, RStar (RCls is_word_char)]) w
     \<longleftrightarrow> package_segment w"
  by (auto simp: seqs_def matches_seq_cls matches_star_cls package_segment_def)

lemma matches_package_name_body:
  "matches package_name_body s \<longleftrightarrow> java_package_like s"
proof -
  have "matches package_name_body s \<longleftrightarrow>
        (\<exists>c v. s = c # v \<and> is_alpha c \<and> (\<exists>t r. v = t @ r \<and> matches (RPlus (RCls is_word_char)) t \<and>
           matches (RPlus (RGrp 1 (seqs [RCls (\<lambda>c. c = CHR ''.''), RCls is_alpha,
                                RStar (RCls is_word_char)]))) r))"
    unfolding package_name_body_def seqs_def
    by (simp add: matches_seq_cls) (simp add: matches_seq)
  also have "\<dots> \<longleftrightarrow> java_package_like s"
    unfolding java_package_like_def matches_plus_cls
    by (subst matches_plus_iff) (simp add: matches_segment, blast)
  finally show ?thesis .
qed

lemma anchor_free_body: "anchor_free package_name_body"
  by (simp add: package_name_body_def seqs_def RPlus_def)

lemma package_name_test: "re_test package_name_re s \<longleftrightarrow> java_package_like s"
  unfolding package_name_re_def anchored_test[OF anchor_free_body] by (rule matches_package_name_body)

lemma take_drop_Cons:
  "take (Suc n) (drop i s) = x # xs \<longleftrightarrow> i < length s \<and> s ! i = x \<and> take n (drop (Suc i) s) = xs"
proof (cases "i < length s")
  case True
  then have "drop i s = s ! i # drop (Suc i) s" by (simp add: Cons_nth_drop_Suc)
  with True show ?thesis by simp
next
  case False
  then show ?thesis by simp
qed

lemma class_re_at:
  "rmatch class_re s (i, []) \<noteq> [] \<longleftrightarrow> token_at ''class'' s i \<or> token_at ''Class'' s i"
proof -
  have "rmatch class_re s (i, []) \<noteq> [] \<longleftrightarrow>
        word_boundary s i \<and> Suc (Suc (Suc (Suc i))) < length s \<and>
        (s ! i = CHR ''C'' \<or> s ! i = CHR ''c'') \<and>
        s ! Suc i = CHR ''l'' \<and> s ! Suc (Suc i) = CHR ''a'' \<and> s ! Suc (Suc (Suc i)) = CHR ''s'' \<and>
        s ! Suc (Suc (Suc (Suc i))) = CHR ''s'' \<and> word_boundary s (Suc (Suc (Suc (Suc (Suc i)))))"
    by (auto simp: class_re_def seqs_def lit_def)
  also have "\<dots> \<longleftrightarrow> token_at ''class'' s i \<or> token_at ''Class'' s i"
    by (auto simp: token_at_def take_drop_Cons)
  finally show ?thesis .
qed

lemma class_re_test:
  "re_test class_re s \<longleftrightarrow> contains_token ''class'' s \<or> contains_token ''Class'' s"
proof -
  have "token_at w s i \<Longrightarrow> i \<le> length s" for w i
    by (simp add: token_at_def)
  then show ?thesis
    unfolding re_test_iff class_re_at contains_token_def by blast
qed

lemma validatePackageName_eq:
  "validatePackageName s =
     (if \<not> java_package_like s
      then Rejected (CordovaError ''Error validating package name. Package name must look like: com.company.Name'')
      else if contains_token ''class'' s \<or> contains_token ''Class'' s
      then Rejected (CordovaError (''Error validating package name. '' @ [CHR 0x22] @ ''class'' @ [CHR 0x22] @ '' is a reserved word''))
      else Fulfilled ())"
  by (simp add: validatePackageName_def package_name_test class_re_test Let_def)

lemma to_lower_class: "map to_lower ''class'' = ''class''" "map to_lower ''Class'' = ''class''"
  by (simp_all add: to_lower_def)

lemma token_ci: "contains_token ''class'' s \<or> contains_token ''Class'' s \<Longrightarrow> contains_token_ci ''class'' s"
  unfolding contains_token_def contains_token_ci_def token_at_def
  using to_lower_class by (metis length_map)

section \<open>Project names\<close>

text \<open>
  Claim C9. \<open>validateProjectName\<close> rejects a project name exactly when it is the empty
  string, or equals \<^verbatim>\<open>CordovaActivity\<close>, or starts with a digit; it resolves every other
  project name.
\<close>

theorem validateProjectName_rejects_iff:
  "(is_rejected (validateProjectName s) \<longleftrightarrow>
      (s = '''' \<or> s = ''CordovaActivity'' \<or> (\<exists>c cs. s = c # cs \<and> is_digit c))) \<and>
   (validateProjectName s = Fulfilled () \<longleftrightarrow>
      \<not> (s = '''' \<or> s = ''CordovaActivity'' \<or> (\<exists>c cs. s = c # cs \<and> is_digit c)))"
  by (simp add: validateProjectName_def is_rejected_def leading_digit_test Let_def)

theorem validateProjectName_rejects_witness:
  "is_rejected (validateProjectName ''1app'') \<and> is_rejected (validateProjectName '''') \<and>
   is_rejected (validateProjectName ''CordovaActivity'') \<and>
   validateProjectName ''MyApp'' = Fulfilled ()"
  using validateProjectName_rejects_iff [of "''1app''"] validateProjectName_rejects_iff [of "''''"]
    validateProjectName_rejects_iff [of "''CordovaActivity''"]
    validateProjectName_rejects_iff [of "''MyApp''"]
  by (simp add: is_digit_def in_range_def code_unit_def)

section \<open>Package names\<close>

text \<open>
  Claim C4, as the code has it. \<open>validatePackageName\<close> rejects every identifier that is
  not of the form \<^verbatim>\<open>[a-zA-Z][a-zA-Z0-9_]+(\.[a-zA-Z][a-zA-Z0-9_]*)+\<close>; it rejects every
  identifier of that form that contains \<^verbatim>\<open>class\<close> or \<^verbatim>\<open>Class\<close> as a token between word
  boundaries; it resolves every other identifier of that form, in particular every one
  without a case-insensitive \<^verbatim>\<open>class\<close> token.
\<close>

theorem validatePackageName_grammar_and_reserved_word:
  "(\<not> java_package_like s \<longrightarrow> is_rejected (validatePackageName s)) \<and>
   (java_package_like s \<and> (contains_token ''class'' s \<or> contains_token ''Class'' s)
      \<longrightarrow> is_rejected (validatePackageName s)) \<and>
   (java_package_like s \<and> \<not> contains_token ''class'' s \<and> \<not> contains_token ''Class'' s
      \<longrightarrow> validatePackageName s = Fulfilled ()) \<and>
   (java_package_like s \<and> \<not> contains_token_ci ''class'' s
      \<longrightarrow> validatePackageName s = Fulfilled ())"
proof -
  have "java_package_like s \<and> \<not> contains_token_ci ''class'' s
          \<longrightarrow> \<not> contains_token ''class'' s \<and> \<not> contains_token ''Class'' s"
    using token_ci by blast
  then show ?thesis
    by (auto simp: validatePackageName_eq is_rejected_def)
qed

theorem validatePackageName_grammar_witness:
  "is_rejected (validatePackageName ''9lives.app'') \<and>
   is_rejected (validatePackageName ''com.class.app'') \<and>
   validatePackageName ''com.example.App'' = Fulfilled ()"
proof -
  have bad: "\<not> java_package_like ''9lives.app''"
    by (simp add: java_package_like_def is_alpha_def in_range_def code_unit_def)
  have g1: "java_package_like ''com.class.app''"
    unfolding java_package_like_def
    by (intro exI[of _ "CHR ''c''"] exI[of _ "''om''"] exI[of _ "[''.class'', ''.app'']"])
       (simp add: package_segment_def is_alpha_def is_word_char_def in_range_def code_unit_def)
  have t1: "contains_token ''class'' ''com.class.app''"
    unfolding contains_token_def
    by (intro exI[of _ 4])
       (simp add: token_at_def word_boundary_def char_before_def char_at_def opt_test_def
          is_alpha_def is_digit_def is_word_char_def in_range_def code_unit_def)
  have g2: "java_package_like ''com.example.App''"
    unfolding java_package_like_def
    by (intro exI[of _ "CHR ''c''"] exI[of _ "''om''"] exI[of _ "[''.example'', ''.App'']"])
       (simp add: package_segment_def is_alpha_def is_word_char_def in_range_def code_unit_def)
  have "\<not> re_test class_re ''com.example.App''"
    by code_simp
  then have t2: "\<not> contains_token ''class'' ''com.example.App''"
    "\<not> contains_token ''Class'' ''com.example.App''"
    by (simp_all add: class_re_test)
  from validatePackageName_grammar_and_reserved_word [of "''9lives.app''"] bad
    validatePackageName_grammar_and_reserved_word [of "''com.class.app''"] g1 t1
    validatePackageName_grammar_and_reserved_word [of "''com.example.App''"] g2 t2
  show ?thesis by blast
qed

text \<open>
  The claim as written fails on the capitalisation: \<^verbatim>\<open>com.CLASS.app\<close> is of the grammar's
  form and holds the word \<^verbatim>\<open>class\<close> case-insensitively between word boundaries, and it
  is accepted, since the source tests \<^verbatim>\<open>[Cc]lass\<close>.
\<close>

theorem validatePackageName_upper_case_class_accepted:
  "java_package_like ''com.CLASS.app'' \<and> contains_token_ci ''class'' ''com.CLASS.app'' \<and>
   validatePackageName ''com.CLASS.app'' = Fulfilled ()"
proof -
  have "java_package_like ''com.CLASS.app''"
    unfolding java_package_like_def
    by (intro exI[of _ "CHR ''c''"] exI[of _ "''om''"] exI[of _ "[''.CLASS'', ''.app'']"])
       (simp add: package_segment_def is_alpha_def is_word_char_def in_range_def code_unit_def)
  moreover have "contains_token_ci ''class'' ''com.CLASS.app''"
    unfolding contains_token_ci_def
    by (intro exI[of _ 4])
       (simp add: to_lower_def word_boundary_def char_before_def char_at_def opt_test_def
          is_alpha_def is_digit_def is_word_char_def in_range_def code_unit_def)
  moreover have "validatePackageName ''com.CLASS.app'' = Fulfilled ()"
    by code_simp
  ultimately show ?thesis by simp
qed

section \<open>Facts about the facade\<close>

lemma then_io_fst:
  "fst (then_io m f) = (case fst m of Rejected e \<Rightarrow> Rejected e | Fulfilled x \<Rightarrow> fst (f x))"
  by (cases m) (auto simp: then_io_def split: promise.splits prod.splits)

lemma then_io_snd:
  "snd (then_io m f) = (case fst m of Rejected e \<Rightarrow> snd m | Fulfilled x \<Rightarrow> snd m @ snd (f x))"
  by (cases m) (auto simp: then_io_def split: promise.splits prod.splits)

lemma resolve_simps [simp]: "fst (resolve x) = Fulfilled x" "snd (resolve x) = []"
  by (simp_all add: resolve_def)

lemma call_simps [simp]: "fst (call e p) = p" "snd (call e p) = [e]"
  by (simp_all add: call_def)

lemma thenResolve_snd [simp]: "snd (thenResolve m v) = snd m"
  by (simp add: thenResolve_def then_io_snd split: promise.splits)

lemma prep_count_Nil [simp]: "prep_count [] = 0"
  by (simp add: prep_count_def)

lemma prep_count_Cons [simp]: "prep_count (e # t) = (if is_prep e then 1 else 0) + prep_count t"
  by (simp add: prep_count_def)

lemma prep_count_append [simp]: "prep_count (a @ b) = prep_count a + prep_count b"
  by (simp add: prep_count_def)

lemma clean_events: "\<forall>e\<in>set (snd (clean w self opts)). is_clean_event e"
  by (simp add: clean_def then_io_snd then_io_fst is_clean_event_def split: promise.splits)

lemma clean_starts: "\<exists>rest. snd (clean w self opts) = CheckReqsRun # rest"
  by (simp add: clean_def then_io_snd then_io_fst split: promise.splits)

lemma prep_count_clean: "prep_count (snd (clean w self opts)) = 0"
  by (simp add: clean_def then_io_snd then_io_fst is_prep_def split: promise.splits)

lemma prep_count_implicit_clean: "prep_count (snd (implicit_clean w self)) = 0"
  by (simp add: implicit_clean_def Let_def prep_count_clean)

lemma prep_count_update_build_files:
  "prep_count (snd (update_build_files w self plugin)) =
     (if getFrameworks plugin (platform self) = [] then 0 else 1)"
  by (simp add: update_build_files_def then_io_snd is_prep_def)

lemma update_build_files_no_clean:
  "\<forall>e\<in>set (snd (update_build_files w self plugin)). \<not> is_clean_event e"
  by (simp add: update_build_files_def then_io_snd is_clean_event_def)

lemma addPlugin_trace:
  "snd (addPlugin w self plugin opts) =
     snd (implicit_clean w self) @
     (case fst (implicit_clean w self) of
        Rejected e \<Rightarrow> []
      | Fulfilled _ \<Rightarrow>
          PluginManagerAdd (platform self) (locations self) (getProjectFile w (root self)) plugin
              (install_options w self opts) #
          (case pm_addPlugin w plugin (install_options w self opts) of
             Rejected e \<Rightarrow> []
           | Fulfilled _ \<Rightarrow> snd (update_build_files w self plugin)))"
  by (simp add: addPlugin_def Let_def then_io_snd then_io_fst split: promise.splits)

lemma removePlugin_trace:
  "snd (snd (removePlugin w self plugin opts)) =
     PluginManagerRemove (platform self) (locations self) (getProjectFile w (root self)) plugin
         (uninstall_options self opts) #
     (case pm_removePlugin w plugin (uninstall_options self opts) of
        Rejected e \<Rightarrow> []
      | Fulfilled _ \<Rightarrow> snd (update_build_files w self plugin))"
  by (simp add: removePlugin_def Let_def then_io_snd then_io_fst split: promise.splits)

subsection \<open>Build files after a plugin operation\<close>

text \<open>
  Claim C2, as the code has it. In an \<open>addPlugin\<close> call whose implicit clean (when one
  runs) and whose plugin-manager step fulfil, and in a \<open>removePlugin\<close> call whose
  plugin-manager step fulfils, the builder's \<^verbatim>\<open>prepBuildFiles\<close> is called exactly once when
  the plugin has at least one framework for the platform and not at all when it has none.
  When one of those steps rejects, the chain stops there and \<^verbatim>\<open>prepBuildFiles\<close> is not
  called, whatever the plugin declares.
\<close>

theorem prepBuildFiles_once_after_success:
  "prep_count (snd (addPlugin w self plugin installOptions)) =
     (if fst (implicit_clean w self) = Fulfilled () \<and>
         pm_addPlugin w plugin (install_options w self installOptions) = Fulfilled () \<and>
         getFrameworks plugin (platform self) \<noteq> []
      then 1 else 0) \<and>
   prep_count (snd (snd (removePlugin w self plugin uninstallOptions))) =
     (if pm_removePlugin w plugin (uninstall_options self uninstallOptions) = Fulfilled () \<and>
         getFrameworks plugin (platform self) \<noteq> []
      then 1 else 0)"
  by (simp add: addPlugin_trace removePlugin_trace prep_count_implicit_clean
        prep_count_update_build_files is_prep_def split: promise.splits)

theorem prepBuildFiles_once_witness:
  "prep_count (snd (addPlugin example_collaborators example_api example_plugin None)) = 1 \<and>
   prep_count (snd (addPlugin example_collaborators example_api plain_plugin None)) = 0 \<and>
   prep_count (snd (snd (removePlugin example_collaborators example_api example_plugin None))) = 1 \<and>
   prep_count (snd (snd (removePlugin example_collaborators example_api plain_plugin None))) = 0"
proof -
  have c: "fst (implicit_clean example_collaborators example_api) = Fulfilled ()"
    by (simp add: implicit_clean_def clean_def then_io_fst example_collaborators_def
          example_project_def Let_def)
  have pm: "pm_addPlugin example_collaborators p opts = Fulfilled ()"
     "pm_removePlugin example_collaborators p opts' = Fulfilled ()" for p opts opts'
    by (simp_all add: example_collaborators_def)
  have fw: "getFrameworks example_plugin (platform example_api) \<noteq> []"
     "getFrameworks plain_plugin (platform example_api) = []"
    by (simp_all add: example_plugin_def plain_plugin_def example_api_def Api_def PLATFORM_def
          example_collaborators_def Let_def)
  from prepBuildFiles_once_after_success [of example_collaborators example_api example_plugin None None]
    prepBuildFiles_once_after_success [of example_collaborators example_api plain_plugin None None]
    c pm fw
  show ?thesis by simp
qed

text \<open>
  The claim as written counts one call for every plugin with a framework. With a plugin
  manager that rejects, the plugin below has one framework and \<^verbatim>\<open>prepBuildFiles\<close> is never
  called.
\<close>

theorem prepBuildFiles_skipped_when_plugin_manager_rejects:
  "getFrameworks example_plugin (platform example_api) = [''src/android/build.gradle''] \<and>
   prep_count (snd (addPlugin failing_plugin_manager example_api example_plugin None)) = 0 \<and>
   prep_count (snd (snd (removePlugin failing_plugin_manager example_api example_plugin None))) = 0"
proof -
  have pm: "pm_addPlugin failing_plugin_manager p opts = Rejected (CordovaError ''Failed to install plugin'')"
     "pm_removePlugin failing_plugin_manager p opts' = Rejected (CordovaError ''Failed to uninstall plugin'')"
    for p opts opts'
    by (simp_all add: failing_plugin_manager_def example_collaborators_def)
  have fw: "getFrameworks example_plugin (platform example_api) = [''src/android/build.gradle'']"
    by (simp add: example_plugin_def example_api_def Api_def PLATFORM_def example_collaborators_def Let_def)
  show ?thesis
    by (simp add: fw addPlugin_trace removePlugin_trace pm prep_count_implicit_clean
          is_prep_def split: promise.splits)
qed

lemma pm_add_options_Nil [simp]: "pm_add_options [] = []"
  by (simp add: pm_add_options_def map_filter_simps)

lemma pm_add_options_Cons [simp]:
  "pm_add_options (e # t) =
     (case e of PluginManagerAdd _ _ _ _ opts \<Rightarrow> opts # pm_add_options t | _ \<Rightarrow> pm_add_options t)"
  by (simp add: pm_add_options_def map_filter_simps split: event.splits)

lemma pm_add_options_append [simp]:
  "pm_add_options (a @ b) = pm_add_options a @ pm_add_options b"
  by (simp add: pm_add_options_def map_filter_def)

lemma pm_add_options_clean [simp]: "pm_add_options (snd (clean w self opts)) = []"
  by (simp add: clean_def then_io_snd then_io_fst split: promise.splits)

lemma pm_add_options_implicit_clean [simp]: "pm_add_options (snd (implicit_clean w self)) = []"
  by (simp add: implicit_clean_def Let_def)

lemma pm_add_options_update_build_files [simp]:
  "pm_add_options (snd (update_build_files w self plugin)) = []"
  by (simp add: update_build_files_def then_io_snd)

lemma pm_add_options_addPlugin:
  "pm_add_options (snd (addPlugin w self plugin installOptions)) =
     (if fst (implicit_clean w self) = Fulfilled () then [install_options w self installOptions] else [])"
  by (simp add: addPlugin_trace split: promise.splits)

lemma install_options_variables:
  "variables (install_options w self installOptions) =
     Some (if js_truthy (var_value (caller_variables installOptions) ''PACKAGE_NAME'')
           then caller_variables installOptions
           else (caller_variables installOptions)
                  (''PACKAGE_NAME'' \<mapsto> getPackageName (getProjectFile w (root self))))"
  by (simp add: install_options_def caller_variables_def empty_options_def Let_def
        split: option.splits)

subsection \<open>The PACKAGE_NAME variable\<close>

text \<open>
  Claim C5, as the code has it. The option bag that \<open>addPlugin\<close> hands to the plugin
  manager has a variable map with a \<^verbatim>\<open>PACKAGE_NAME\<close> entry: the caller's value when the
  caller supplied a non-empty one, the package name of the project otherwise (no entry,
  or an empty string). Every other variable is as the caller gave it.
\<close>

theorem addPlugin_supplies_PACKAGE_NAME:
  "(\<forall>opts \<in> set (pm_add_options (snd (addPlugin w self plugin installOptions))).
      opts = install_options w self installOptions) \<and>
   package_name_variable (install_options w self installOptions) =
     Some (case caller_variables installOptions ''PACKAGE_NAME'' of
             None \<Rightarrow> getPackageName (getProjectFile w (root self))
           | Some v \<Rightarrow> if v = '''' then getPackageName (getProjectFile w (root self)) else v) \<and>
   (\<exists>vars. variables (install_options w self installOptions) = Some vars \<and>
      (\<forall>name. name \<noteq> ''PACKAGE_NAME'' \<longrightarrow> vars name = caller_variables installOptions name))"
  by (auto simp: pm_add_options_addPlugin install_options_variables package_name_variable_def
        var_value_def split: option.splits)

lemma example_implicit_clean: "fst (implicit_clean example_collaborators example_api) = Fulfilled ()"
  by (simp add: implicit_clean_def clean_def then_io_fst example_collaborators_def
        example_project_def Let_def)

theorem addPlugin_supplies_PACKAGE_NAME_witness:
  "map package_name_variable
     (pm_add_options (snd (addPlugin example_collaborators example_api plain_plugin None)))
     = [Some ''com.example.app'']"
  using addPlugin_supplies_PACKAGE_NAME [of example_collaborators example_api plain_plugin None]
  by (simp add: pm_add_options_addPlugin example_implicit_clean caller_variables_def)
     (simp add: example_collaborators_def example_project_def)

text \<open>
  The claim as written keeps every supplied value. A caller who supplies the empty string
  gets it replaced: the source tests the entry for truthiness.
\<close>

theorem addPlugin_replaces_blank_PACKAGE_NAME:
  "caller_variables (Some blank_package_name_options) ''PACKAGE_NAME'' = Some '''' \<and>
   map package_name_variable
     (pm_add_options (snd (addPlugin example_collaborators example_api plain_plugin
                             (Some blank_package_name_options))))
     = [Some ''com.example.app'']"
  by (simp add: pm_add_options_addPlugin example_implicit_clean caller_variables_def
        blank_package_name_options_def empty_options_def package_name_variable_def
        install_options_variables var_value_def)
     (simp add: example_collaborators_def example_project_def)

subsection \<open>The implicit clean\<close>

text \<open>
  Claim C6. When the project is not an Android Studio project and its build state is not
  clean, the trace of \<open>addPlugin\<close> starts with the trace of \<open>clean\<close> called with
  \<^verbatim>\<open>noPrepare\<close> set (it opens with the requirement check), and nothing after it is a
  step of a clean: the plugin manager comes after the clean. In every other case no step
  of a clean happens at all.
\<close>

theorem addPlugin_implicit_clean:
  "(if \<not> isAndroidStudioProject w (root self) \<and> \<not> isClean (getProjectFile w (root self))
    then \<exists>rest. snd (addPlugin w self plugin installOptions)
                  = snd (clean w self \<lparr> noPrepare = True \<rparr>) @ rest \<and>
                (\<forall>e \<in> set rest. \<not> is_clean_event e)
    else \<forall>e \<in> set (snd (addPlugin w self plugin installOptions)). \<not> is_clean_event e) \<and>
   (\<forall>e \<in> set (snd (clean w self \<lparr> noPrepare = True \<rparr>)). is_clean_event e) \<and>
   (\<exists>more. snd (clean w self \<lparr> noPrepare = True \<rparr>) = CheckReqsRun # more)"
proof -
  let ?tail = "case fst (implicit_clean w self) of
        Rejected e \<Rightarrow> []
      | Fulfilled _ \<Rightarrow>
          PluginManagerAdd (platform self) (locations self) (getProjectFile w (root self)) plugin
              (install_options w self installOptions) #
          (case pm_addPlugin w plugin (install_options w self installOptions) of
             Rejected e \<Rightarrow> []
           | Fulfilled _ \<Rightarrow> snd (update_build_files w self plugin))"
  have tail: "\<forall>e \<in> set ?tail. \<not> is_clean_event e"
    using update_build_files_no_clean[of w self plugin]
    by (auto simp: is_clean_event_def split: promise.splits)
  have tr: "snd (addPlugin w self plugin installOptions) = snd (implicit_clean w self) @ ?tail"
    by (rule addPlugin_trace)
  have p1: "if \<not> isAndroidStudioProject w (root self) \<and> \<not> isClean (getProjectFile w (root self))
    then \<exists>rest. snd (addPlugin w self plugin installOptions)
                  = snd (clean w self \<lparr> noPrepare = True \<rparr>) @ rest \<and>
                (\<forall>e \<in> set rest. \<not> is_clean_event e)
    else \<forall>e \<in> set (snd (addPlugin w self plugin installOptions)). \<not> is_clean_event e"
  proof (cases "\<not> isAndroidStudioProject w (root self) \<and> \<not> isClean (getProjectFile w (root self))")
    case True
    then have "snd (implicit_clean w self) = snd (clean w self \<lparr> noPrepare = True \<rparr>)"
      by (simp add: implicit_clean_def Let_def)
    with tr have "snd (addPlugin w self plugin installOptions)
                  = snd (clean w self \<lparr> noPrepare = True \<rparr>) @ ?tail"
      by simp
    with tail have "\<exists>rest. snd (addPlugin w self plugin installOptions)
                  = snd (clean w self \<lparr> noPrepare = True \<rparr>) @ rest \<and>
                (\<forall>e \<in> set rest. \<not> is_clean_event e)"
      by blast
    with True show ?thesis by simp
  next
    case False
    then have "snd (implicit_clean w self) = []"
      by (auto simp: implicit_clean_def Let_def)
    with tr have "snd (addPlugin w self plugin installOptions) = ?tail"
      by simp
    with tail have "\<forall>e \<in> set (snd (addPlugin w self plugin installOptions)). \<not> is_clean_event e"
      by simp
    with False show ?thesis by auto
  qed
  from p1 clean_events[of w self "\<lparr> noPrepare = True \<rparr>"] clean_starts[of w self "\<lparr> noPrepare = True \<rparr>"]
  show ?thesis by blast
qed

theorem addPlugin_implicit_clean_witness:
  "snd (addPlugin example_collaborators example_api plain_plugin None) =
     [CheckReqsRun, BuildRunClean \<lparr> noPrepare = True \<rparr>, PrepareClean \<lparr> noPrepare = True \<rparr>,
      PluginManagerAdd (platform example_api) (locations example_api) example_project plain_plugin
        (install_options example_collaborators example_api None)] \<and>
   list_all (\<lambda>e. \<not> is_clean_event e)
     (snd (addPlugin studio_collaborators studio_api plain_plugin None))"
proof -
  have a: "snd (clean example_collaborators example_api \<lparr> noPrepare = True \<rparr>) =
        [CheckReqsRun, BuildRunClean \<lparr> noPrepare = True \<rparr>, PrepareClean \<lparr> noPrepare = True \<rparr>]"
    by (simp add: clean_def then_io_snd then_io_fst example_collaborators_def)
  have b: "\<not> isAndroidStudioProject example_collaborators (root example_api) \<and>
           \<not> isClean (getProjectFile example_collaborators (root example_api))"
    by (simp add: example_collaborators_def example_project_def)
  have c: "isAndroidStudioProject studio_collaborators (root studio_api)"
    by (simp add: studio_collaborators_def)
  from addPlugin_implicit_clean [of example_collaborators example_api plain_plugin None] a b
  obtain rest where r: "snd (addPlugin example_collaborators example_api plain_plugin None) =
      [CheckReqsRun, BuildRunClean \<lparr> noPrepare = True \<rparr>, PrepareClean \<lparr> noPrepare = True \<rparr>] @ rest"
    by auto
  have "snd (addPlugin example_collaborators example_api plain_plugin None) =
     [CheckReqsRun, BuildRunClean \<lparr> noPrepare = True \<rparr>, PrepareClean \<lparr> noPrepare = True \<rparr>,
      PluginManagerAdd (platform example_api) (locations example_api) example_project plain_plugin
        (install_options example_collaborators example_api None)]"
    by (simp add: addPlugin_trace implicit_clean_def Let_def b a example_implicit_clean
          update_build_files_def plain_plugin_def)
       (simp add: example_collaborators_def clean_def then_io_fst update_build_files_def
          plain_plugin_def)
  moreover from addPlugin_implicit_clean [of studio_collaborators studio_api plain_plugin None] c
  have "list_all (\<lambda>e. \<not> is_clean_event e)
     (snd (addPlugin studio_collaborators studio_api plain_plugin None))"
    by (simp add: list_all_iff)
  ultimately show ?thesis by simp
qed

lemma Api_android_studio: "api_android_studio (fst (Api w r)) = isAndroidStudioProject w r"
  by (simp add: Api_def Let_def)

subsection \<open>Options of removePlugin\<close>

text \<open>
  Claim C10. When the caller gives \<open>removePlugin\<close> an option bag whose
  \<^verbatim>\<open>usePlatformWww\<close> is \<^verbatim>\<open>true\<close> and the facade is on an Android Studio project, the
  caller's bag is rewritten: \<^verbatim>\<open>usePlatformWww\<close> becomes \<^verbatim>\<open>false\<close> and \<^verbatim>\<open>android_studio\<close>
  becomes \<^verbatim>\<open>true\<close>. In every other case the bag is left as it is. The plugin manager is
  called once, first, with the caller's bag as it stands then. The facade's flag is the
  answer of the layout probe at construction.
\<close>

theorem removePlugin_rewrites_options:
  "(case uninstallOptions of
      Some opts \<Rightarrow>
        if usePlatformWww opts = JBool True \<and> api_android_studio self
        then fst (removePlugin w self plugin uninstallOptions)
               = Some (opts \<lparr> usePlatformWww := JBool False, android_studio := JBool True \<rparr>)
        else fst (removePlugin w self plugin uninstallOptions) = Some opts
    | None \<Rightarrow> fst (removePlugin w self plugin uninstallOptions) = None) \<and>
   pm_remove_options (snd (snd (removePlugin w self plugin uninstallOptions)))
     = [fst (removePlugin w self plugin uninstallOptions)] \<and>
   (\<exists>rest. snd (snd (removePlugin w self plugin uninstallOptions)) =
      PluginManagerRemove (platform self) (locations self) (getProjectFile w (root self)) plugin
        (fst (removePlugin w self plugin uninstallOptions)) # rest) \<and>
   api_android_studio (fst (Api w r)) = isAndroidStudioProject w r"
proof -
  have "pm_remove_options (snd (update_build_files w self plugin)) = []"
    by (simp add: update_build_files_def then_io_snd pm_remove_options_def map_filter_simps)
  then have "pm_remove_options (snd (snd (removePlugin w self plugin uninstallOptions)))
     = [fst (removePlugin w self plugin uninstallOptions)]"
    by (simp add: removePlugin_trace pm_remove_options_def map_filter_simps)
       (simp add: removePlugin_def Let_def split: promise.splits)
  moreover have "fst (removePlugin w self plugin uninstallOptions) = uninstall_options self uninstallOptions"
    by (simp add: removePlugin_def Let_def)
  ultimately show ?thesis
    by (simp add: removePlugin_trace Api_android_studio uninstall_options_def split: option.splits)
qed

theorem removePlugin_rewrites_options_witness:
  "fst (removePlugin studio_collaborators studio_api plain_plugin (Some platform_www_options))
     = Some (platform_www_options \<lparr> usePlatformWww := JBool False, android_studio := JBool True \<rparr>) \<and>
   fst (removePlugin example_collaborators example_api plain_plugin (Some platform_www_options))
     = Some platform_www_options"
proof -
  have s: "api_android_studio studio_api" "\<not> api_android_studio example_api"
    by (simp_all add: studio_api_def example_api_def Api_def Let_def studio_collaborators_def
          example_collaborators_def)
  have u: "usePlatformWww platform_www_options = JBool True"
    by (simp add: platform_www_options_def empty_options_def)
  from removePlugin_rewrites_options
         [where uninstallOptions = "Some platform_www_options" and self = studio_api
            and w = studio_collaborators and plugin = plain_plugin and r = "root studio_api"]
       removePlugin_rewrites_options
         [where uninstallOptions = "Some platform_www_options" and self = example_api
            and w = example_collaborators and plugin = plain_plugin and r = "root example_api"]
       s u
  show ?thesis by simp
qed

section \<open>Facts about the scaffolder\<close>

lemma steps_fst:
  "fst (steps (m # ms)) = (case fst m of Rejected e \<Rightarrow> Rejected e | Fulfilled x \<Rightarrow> fst (steps ms))"
  by (simp add: then_io_fst)

lemma steps_snd:
  "snd (steps (m # ms)) = snd m @ (case fst m of Rejected e \<Rightarrow> [] | Fulfilled x \<Rightarrow> snd (steps ms))"
  by (simp add: then_io_snd split: promise.splits)

declare steps.simps(2) [simp del]

lemma steps_Nil [simp]: "fst (steps []) = Fulfilled ()" "snd (steps []) = []"
  by simp_all

lemma shell_simps [simp]:
  "fst (shell h fatal op) = (if fatal \<and> op_fails h op then Rejected (Thrown ''shell'') else Fulfilled ())"
  "snd (shell h fatal op) = [Fs op]"
  by (simp_all add: shell_def)

lemma fs_call_simps [simp]:
  "fst (fs_call h op) = (if op_fails h op then Rejected (Thrown ''fs'') else Fulfilled ())"
  "snd (fs_call h op) = [Fs op]"
  by (simp_all add: fs_call_def)

lemma emit_simps [simp]: "fst (emit c m) = Fulfilled ()" "snd (emit c m) = [Emit c m]"
  by (simp_all add: emit_def)

lemma console_log_simps [simp]: "fst (console_log m) = Fulfilled ()" "snd (console_log m) = [ConsoleLog m]"
  by (simp_all add: console_log_def)

lemma throw_simps [simp]: "fst (throw m) = Rejected (Thrown m)" "snd (throw m) = []"
  by (simp_all add: throw_def)

lemma thenResolve_fst:
  "fst (thenResolve m v) = (case fst m of Rejected e \<Rightarrow> Rejected e | Fulfilled x \<Rightarrow> Fulfilled v)"
  by (simp add: thenResolve_def then_io_fst split: promise.splits)

lemma create_existing_destination:
  "existsSync h (relative_to_cwd h (str_or_default project_path ''CordovaExample'')) \<Longrightarrow>
   create h project_path config options =
     (Rejected (CordovaError ''Project already exists! Delete and recreate''), [])"
  by (simp add: create_def Let_def)

lemma create_invalid_package_name:
  "is_rejected (validatePackageName (str_or_default (cfg_packageName config) ''my.cordova.project'')) \<Longrightarrow>
   is_rejected (fst (create h project_path config options)) \<and>
   snd (create h project_path config options) = []"
  by (auto simp: create_def Let_def is_rejected_def thenResolve_fst then_io_fst then_io_snd
        split: promise.splits)

text \<open>Evaluating the matcher and the loops on a given text.\<close>

lemmas eval_defs =
  reference_re_def target_re_def cordovalib_re_def framework_re_def relative_framework_re_def
  reference_line_re_def trailing_newline_re_def seqs_def lit_def RPlus_def LF_def
  is_space_def is_digit_def is_alpha_def is_word_char_def in_range_def code_unit_def
  any_char_def is_line_terminator_def is_slash_def opt_test_def char_before_def char_at_def
  word_boundary_def

lemmas eval_loops = exec_all.simps replace_from.simps re_search.simps rmatch_star

lemma fs_ops_Nil [simp]: "fs_ops [] = []"
  by (simp add: fs_ops_def map_filter_simps)

lemma fs_ops_Cons [simp]:
  "fs_ops (e # t) = (case e of Fs op \<Rightarrow> op # fs_ops t | _ \<Rightarrow> fs_ops t)"
  by (simp add: fs_ops_def map_filter_simps split: event.splits)

lemma fs_ops_append [simp]: "fs_ops (a @ b) = fs_ops a @ fs_ops b"
  by (simp add: fs_ops_def map_filter_def)

lemma sanitized_reserved_name:
  "replace_all unsafe_name_char_re ''_'' ''CordovaActivity''
     = ''CordovaActivity''"
  by (simp add: replace_all_def unsafe_name_char_re_def eval_loops eval_defs
        cong: option.case_cong_weak list.case_cong_weak prod.case_cong_weak)

lemma example_package_accepted: "validatePackageName ''com.example.app'' = Fulfilled ()"
proof -
  have g: "java_package_like ''com.example.app''"
    unfolding java_package_like_def
    by (intro exI[of _ "CHR ''c''"] exI[of _ "''om''"] exI[of _ "[''.example'', ''.app'']"])
       (simp add: package_segment_def is_alpha_def is_word_char_def in_range_def code_unit_def)
  have "\<not> re_test class_re ''com.example.app''"
    by (simp add: re_test_def class_re_def eval_loops eval_defs
          cong: option.case_cong_weak list.case_cong_weak prod.case_cong_weak)
  with g show ?thesis
    by (simp add: validatePackageName_eq class_re_test)
qed

lemma package_path: "replace_all dot_re ''/'' ''com.example.app'' = ''com/example/app''"
  by (simp add: replace_all_def dot_re_def substitution_def eval_loops eval_defs
        cong: option.case_cong_weak list.case_cong_weak prod.case_cong_weak)

lemma fresh_host_answers:
  "op_fails fresh_host op = (case op of FsUnlink _ \<Rightarrow> True | _ \<Rightarrow> False)"
  "ROOT fresh_host = ''/opt/cordova-android''"
  "shell_ls fresh_host p = []"
  "existsSync fresh_host p = False"
  "readFileSync fresh_host p =
      (if p = ''/opt/cordova-android/bin/templates/project/project.properties''
       then Some template_properties else None)"
  "loadManifest fresh_host p =
      (if p = ''/opt/cordova-android/bin/templates/project/AndroidManifest.xml''
       then Some template_manifest else None)"
  "builder_throws fresh_host m = False"
  "relative_to_cwd fresh_host p = p"
  "get_target fresh_host = ''android-25''"
  by (simp_all add: fresh_host_def)

subsection \<open>Creating a project\<close>

text \<open>
  Claim C1 at the input on which the code departs from it. The destination does not
  exist and the package name is valid; the project name \<^verbatim>\<open>CordovaActivity\<close> fails
  \<open>validateProjectName\<close>. The callback that validates it drops the rejected promise, so
  \<open>create\<close> copies the template into the destination and resolves. (For an existing
  destination and for an invalid package name the promise rejects with no operation on
  the file system: lemmas \<open>create_existing_destination\<close> and
  \<open>create_invalid_package_name\<close>.)
\<close>

theorem create_scaffolds_despite_invalid_project_name:
  "is_rejected (validateProjectName ''CordovaActivity'') \<and>
   fst (create fresh_host (Some ''platforms/android'') reserved_name_config None)
     = Fulfilled ''platforms/android'' \<and>
   take 4 (fs_ops (snd (create fresh_host (Some ''platforms/android'') reserved_name_config None)))
     = [ShellCp ''-r'' ''/opt/cordova-android/bin/templates/project/assets'' ''platforms/android'',
        ShellCp ''-r'' ''/opt/cordova-android/bin/templates/project/res'' ''platforms/android'',
        ShellCp '''' ''/opt/cordova-android/bin/templates/project/gitignore'' ''platforms/android/.gitignore'',
        ShellMkdir '''' ''platforms/android/libs'']"
proof -
  have v: "is_rejected (validateProjectName ''CordovaActivity'')"
    by (simp add: validateProjectName_def is_rejected_def)
  have sc: "fst (scaffold fresh_host ''platforms/android'' no_options ''com.example.app''
                  ''CordovaActivity'' ''MainActivity'' ''android-25'') = Fulfilled ()"
    by (simp add: scaffold_def Let_def steps_fst copyJsAndLibrary_def delete_old_jars_def copyScripts_def
          copyBuildRules_def writeProjectProperties_def prepBuildFiles_def fresh_host_answers
          getFrameworkDir_def str_or_default_def no_options_def package_path path_join_def)
  have tr: "take 4 (fs_ops (snd (scaffold fresh_host ''platforms/android'' no_options ''com.example.app''
                  ''CordovaActivity'' ''MainActivity'' ''android-25'')))
     = [ShellCp ''-r'' ''/opt/cordova-android/bin/templates/project/assets'' ''platforms/android'',
        ShellCp ''-r'' ''/opt/cordova-android/bin/templates/project/res'' ''platforms/android'',
        ShellCp '''' ''/opt/cordova-android/bin/templates/project/gitignore'' ''platforms/android/.gitignore'',
        ShellMkdir '''' ''platforms/android/libs'']"
    by (simp add: scaffold_def Let_def steps_snd fresh_host_answers str_or_default_def
          no_options_def path_join_def)
  have cr: "create fresh_host (Some ''platforms/android'') reserved_name_config None =
        thenResolve
                (then_io
                   (then_io (validatePackageName ''com.example.app'', [])
                      (\<lambda>_. ignoring (validateProjectName ''CordovaActivity'') (resolve ())))
                   (\<lambda>_. scaffold fresh_host ''platforms/android'' no_options ''com.example.app''
                           ''CordovaActivity'' ''MainActivity'' ''android-25''))
                ''platforms/android''"
    by (simp add: create_def Let_def reserved_name_config_def str_or_default_def str_truthy_def
          str_or_def sanitized_reserved_name fresh_host_answers no_options_def)
  show ?thesis
    by (simp add: v cr thenResolve_fst then_io_fst then_io_snd example_package_accepted
          ignoring_def sc tr)
qed

subsection \<open>The properties file\<close>

lemmas eval_cong = option.case_cong_weak list.case_cong_weak prod.case_cong_weak

lemma unterminated_target:
  "replace_first target_re ''target=android-25'' unterminated_properties
     = lines_text [''target=android-25''] @ ''android.library.reference.1=CordovaLib''"
  by (simp add: unterminated_properties_def lines_text_def replace_first_def substitution_def
        eval_loops eval_defs cong: eval_cong)

lemma unterminated_references:
  "exec_all reference_re (lines_text [''target=android-25''] @ ''android.library.reference.1=CordovaLib'') 0
     = [''CordovaLib'']"
  by (simp add: lines_text_def eval_loops eval_defs group1_def cong: eval_cong)

lemma CordovaLib_is_stale: "stale_reference ''CordovaLib''"
  by (simp add: stale_reference_def re_test_def eval_loops eval_defs cong: eval_cong)

lemma unterminated_line_stays:
  "replace_all reference_line_re '''' (lines_text [''target=android-25''] @ ''android.library.reference.1=CordovaLib'')
     = lines_text [''target=android-25''] @ ''android.library.reference.1=CordovaLib''"
  by (simp add: lines_text_def replace_all_def eval_loops eval_defs cong: eval_cong)

lemma unterminated_no_newline:
  "\<not> re_test trailing_newline_re (lines_text [''target=android-25''] @ ''android.library.reference.1=CordovaLib'')"
  by (simp add: lines_text_def re_test_def eval_loops eval_defs cong: eval_cong)

lemma keys_CordovaLib: "object_keys [''CordovaLib''] = [''CordovaLib'']"
  by (simp add: object_keys_def first_occurrences_def array_index_key_def numeric_text_def eval_defs)

lemma lines_CordovaLib:
  "reference_lines [''CordovaLib''] = lines_text [''android.library.reference.1=CordovaLib'']"
  by (simp add: reference_lines_def lines_text_def enumerate_eq_zip show_nat.simps LF_def)

lemma unterminated_text:
  "project_properties_text ''android-25'' unterminated_properties
     = lines_text [''target=android-25'', ''android.library.reference.1=CordovaLib'',
                   ''android.library.reference.1=CordovaLib'']"
  by (simp add: project_properties_text_def extractSubProjectPaths_def Let_def
        unterminated_target unterminated_references CordovaLib_is_stale unterminated_line_stays
        unterminated_no_newline keys_CordovaLib lines_CordovaLib)
     (simp add: lines_text_def)

lemma terminated_target:
  "replace_first target_re ''target=android-25'' terminated_properties
     = lines_text [''target=android-25'', ''android.library.reference.1=CordovaLib'',
                 ''android.library.reference.2=../lib'', ''android.library.reference.3=../lib'']"
  by (simp add: terminated_properties_def lines_text_def replace_first_def substitution_def
        eval_loops eval_defs cong: eval_cong)

lemma terminated_references:
  "exec_all reference_re (lines_text [''target=android-25'', ''android.library.reference.1=CordovaLib'',
                 ''android.library.reference.2=../lib'', ''android.library.reference.3=../lib'']) 0
     = [''CordovaLib'', ''../lib'', ''../lib'']"
  by (simp add: lines_text_def eval_loops eval_defs group1_def cong: eval_cong)

lemma lib_not_stale: "\<not> stale_reference ''../lib''"
  by (simp add: stale_reference_def re_test_def eval_loops eval_defs cong: eval_cong)

lemma terminated_lines_go:
  "replace_all reference_line_re '''' (lines_text [''target=android-25'', ''android.library.reference.1=CordovaLib'',
                 ''android.library.reference.2=../lib'', ''android.library.reference.3=../lib''])
     = lines_text [''target=android-25'']"
  by (simp add: lines_text_def replace_all_def substitution_def eval_loops eval_defs cong: eval_cong)

lemma terminated_newline:
  "re_test trailing_newline_re (lines_text [''target=android-25''])"
  by (simp add: lines_text_def re_test_def eval_loops eval_defs cong: eval_cong)

lemma keys_three: "object_keys [''CordovaLib'', ''../lib'', ''../lib''] = [''CordovaLib'', ''../lib'']"
  by (simp add: object_keys_def first_occurrences_def array_index_key_def numeric_text_def eval_defs)

lemma lines_two:
  "reference_lines [''CordovaLib'', ''../lib'']
     = lines_text [''android.library.reference.1=CordovaLib'', ''android.library.reference.2=../lib'']"
  by (simp add: reference_lines_def lines_text_def enumerate_eq_zip show_nat.simps LF_def upt_rec)

lemma terminated_text:
  "project_properties_text ''android-25'' terminated_properties
     = lines_text [''target=android-25'', ''android.library.reference.1=CordovaLib'',
                   ''android.library.reference.2=../lib'']"
  by (simp add: project_properties_text_def extractSubProjectPaths_def Let_def
        terminated_target terminated_references CordovaLib_is_stale lib_not_stale terminated_lines_go
        terminated_newline keys_three lines_two)
     (simp add: lines_text_def)

text \<open>
  Claim C7 at the input on which the code departs from it. The properties file of the
  project ends with a reference line that has no line end. The pattern that removes the
  old reference lines asks for \<^verbatim>\<open>\n\<close> at the end of each, so this line stays, and the
  fresh lines are appended after it: the file written holds the shared library twice,
  both times as number 1. (On a file whose lines are all ended by \<^verbatim>\<open>\n\<close> the old lines go,
  the stale reference is dropped, the duplicate collapses and the numbering starts
  afresh: lemma \<open>terminated_text\<close>.)
\<close>

theorem writeProjectProperties_keeps_unterminated_reference:
  "readFileSync existing_project_host ''platforms/android/project.properties''
     = Some (lines_text [''target=android-19''] @ ''android.library.reference.1=CordovaLib'') \<and>
   writeProjectProperties existing_project_host ''platforms/android'' ''android-25''
     = (Fulfilled (),
        [Fs (FsWriteFile ''platforms/android/project.properties''
               (lines_text [''target=android-25'',
                            ''android.library.reference.1=CordovaLib'',
                            ''android.library.reference.1=CordovaLib'']))])"
proof -
  have h: "existsSync existing_project_host ''platforms/android/project.properties''"
    "readFileSync existing_project_host ''platforms/android/project.properties''
       = Some unterminated_properties"
    "\<And>op. op_fails existing_project_host op = (case op of FsUnlink _ \<Rightarrow> True | _ \<Rightarrow> False)"
    by (simp_all add: existing_project_host_def fresh_host_def)
  show ?thesis
    by (simp add: writeProjectProperties_def Let_def path_join_def h unterminated_text
          fs_call_def call_def)
       (simp add: unterminated_properties_def)
qed

lemma manifest_writes_Nil [simp]: "manifest_writes [] = []"
  by (simp add: manifest_writes_def map_filter_simps)

lemma manifest_writes_Cons [simp]:
  "manifest_writes (e # t) =
     (case e of Fs (ManifestWrite p m) \<Rightarrow> (p, m) # manifest_writes t | _ \<Rightarrow> manifest_writes t)"
  by (simp add: manifest_writes_def map_filter_simps split: event.splits fs_op.splits)

lemma manifest_writes_append [simp]:
  "manifest_writes (a @ b) = manifest_writes a @ manifest_writes b"
  by (simp add: manifest_writes_def map_filter_def)

lemma steps_list_all:
  "list_all (\<lambda>m. list_all P (snd m)) ms \<Longrightarrow> list_all P (snd (steps ms))"
  by (induction ms) (auto simp: steps_snd split: promise.splits)

lemma not_manifest_write_simps [simp]:
  "not_manifest_write (Emit c msg)" "not_manifest_write (ConsoleLog msg)"
  "not_manifest_write (PrepBuildFiles bm b)"
  "not_manifest_write (Fs op) = (case op of ManifestWrite p m \<Rightarrow> False | _ \<Rightarrow> True)"
  by (simp_all add: not_manifest_write_def split: fs_op.splits)

lemma manifest_writes_none:
  "list_all not_manifest_write t \<Longrightarrow> manifest_writes t = []"
  by (induction t) (auto simp: not_manifest_write_def split: event.splits fs_op.splits)

lemma steps_map_list_all:
  "(\<And>x. x \<in> set xs \<Longrightarrow> list_all P (snd (g x))) \<Longrightarrow> list_all P (snd (steps (map g xs)))"
  by (rule steps_list_all) (simp add: list_all_iff)

lemma no_manifest_write_jars:
  "list_all not_manifest_write (snd (delete_old_jars h p))"
  unfolding delete_old_jars_def
  by (rule steps_map_list_all) (auto intro!: steps_list_all)

lemma no_manifest_write_copyJsAndLibrary:
  "list_all not_manifest_write (snd (copyJsAndLibrary h fatal p shared name))"
  unfolding copyJsAndLibrary_def Let_def
  by (auto intro!: steps_list_all simp: no_manifest_write_jars)

lemma no_manifest_write_copyScripts:
  "list_all not_manifest_write (snd (copyScripts h fatal p))"
  unfolding copyScripts_def Let_def
  by (auto intro!: steps_list_all)

lemma no_manifest_write_copyBuildRules:
  "list_all not_manifest_write (snd (copyBuildRules h fatal p))"
  by (simp add: copyBuildRules_def Let_def)

lemma no_manifest_write_writeProjectProperties:
  "list_all not_manifest_write (snd (writeProjectProperties h p t))"
  by (simp add: writeProjectProperties_def Let_def split: option.splits)

lemma no_manifest_write_prepBuildFiles:
  "list_all not_manifest_write (snd (prepBuildFiles h p))"
  by (simp add: prepBuildFiles_def Let_def)

lemma manifest_writes_refresh [simp]:
  "manifest_writes (snd (steps
      [copyJsAndLibrary h f p s n, copyScripts h f p, copyBuildRules h f p,
       writeProjectProperties h p t, prepBuildFiles h p, emit c msg])) = []"
  by (intro manifest_writes_none steps_list_all)
     (simp add: no_manifest_write_copyJsAndLibrary no_manifest_write_copyScripts
        no_manifest_write_copyBuildRules no_manifest_write_writeProjectProperties
        no_manifest_write_prepBuildFiles)

lemma update_trace:
  "snd (update h p opts) =
     (case loadManifest h (path_join [p, ''AndroidManifest.xml'']) of
        None \<Rightarrow> []
      | Some m \<Rightarrow>
          (if raise_min_sdk m
           then [Emit ''verbose'' (''Updating minSdkVersion to '' @ show_nat MIN_SDK_VERSION @
                                                   '' in AndroidManifest.xml'')]
           else []) @
          Fs (ManifestWrite (path_join [p, ''AndroidManifest.xml'']) (updated_manifest m)) #
          (if op_fails h (ManifestWrite (path_join [p, ''AndroidManifest.xml'']) (updated_manifest m))
           then []
           else snd (steps
                  [copyJsAndLibrary h (shell_config_fatal h) p
                     (opt_link (case opts of None \<Rightarrow> no_options | Some x \<Rightarrow> x))
                     (activityName (updated_manifest m)),
                   copyScripts h (shell_config_fatal h) p,
                   copyBuildRules h (shell_config_fatal h) p,
                   writeProjectProperties h p (get_target h),
                   prepBuildFiles h p,
                   emit ''log'' (generateDoneMessage h ''update''
                      (opt_link (case opts of None \<Rightarrow> no_options | Some x \<Rightarrow> x)))])))"
  by (simp add: update_def Let_def then_io_snd steps_snd split: option.splits)

lemma update_manifest_writes:
  "manifest_writes (snd (update h p opts)) =
     (case loadManifest h (path_join [p, ''AndroidManifest.xml'']) of
        None \<Rightarrow> []
      | Some m \<Rightarrow> [(path_join [p, ''AndroidManifest.xml''], updated_manifest m)])"
  by (simp add: update_trace split: option.splits)

lemma show_nat_16: "show_nat MIN_SDK_VERSION = ''16''"
  by (simp add: MIN_SDK_VERSION_def show_nat.simps)

subsection \<open>Reading a number\<close>

lemma bit_length_pos: "0 < n \<Longrightarrow> 0 < bit_length n"
  by (subst bit_length.simps) simp

lemma bit_length_bounds: "0 < n \<Longrightarrow> 2 ^ (bit_length n - 1) \<le> n \<and> n < 2 ^ bit_length n"
proof (induction n rule: bit_length.induct)
  case (1 n)
  show ?case
  proof (cases "n div 2 = 0")
    case True
    with "1.prems" have "n = 1" by presburger
    then show ?thesis by (simp add: bit_length.simps)
  next
    case False
    then have pos: "0 < n div 2" by simp
    from "1.prems" have ne: "n \<noteq> 0" by simp
    from "1.IH"[OF ne pos]
    have lo: "2 ^ (bit_length (n div 2) - 1) \<le> n div 2" and hi: "n div 2 < 2 ^ bit_length (n div 2)"
      by simp_all
    have bl: "bit_length n = Suc (bit_length (n div 2))"
      using ne by (subst bit_length.simps) simp
    from bit_length_pos[OF pos] obtain k where k: "bit_length (n div 2) = Suc k"
      by (cases "bit_length (n div 2)") simp_all
    from lo k have "2 * 2 ^ k \<le> 2 * (n div 2)" by simp
    also have "\<dots> \<le> n" by simp
    finally have a: "2 ^ (bit_length n - 1) \<le> n" by (simp add: bl k)
    from hi have "n div 2 + 1 \<le> 2 ^ bit_length (n div 2)" by simp
    then have "2 * (n div 2 + 1) \<le> 2 * 2 ^ bit_length (n div 2)" by simp
    moreover have "n < 2 * (n div 2 + 1)" by presburger
    ultimately have b: "n < 2 ^ bit_length n" by (simp add: bl)
    from a b show ?thesis by simp
  qed
qed

lemma round_ties_even_ge: "of_int k \<le> x \<Longrightarrow> k \<le> round_ties_even x"
proof -
  assume "of_int k \<le> x"
  then have "k \<le> \<lfloor>x\<rfloor>" by (simp add: le_floor_iff)
  then show ?thesis by (simp add: round_ties_even_def Let_def)
qed

lemma round_ties_even_le: "x \<le> of_int k \<Longrightarrow> round_ties_even x \<le> k"
proof -
  assume le: "x \<le> of_int k"
  show ?thesis
  proof (cases "x = of_int k")
    case True
    then show ?thesis by (simp add: round_ties_even_def Let_def)
  next
    case False
    with le have "x < of_int k" by simp
    then have "\<lfloor>x\<rfloor> < k" by (simp add: floor_less_iff)
    then show ?thesis by (simp add: round_ties_even_def Let_def)
  qed
qed

lemma round_ties_even_less_even:
  assumes "even k"
  shows "round_ties_even x < k \<longleftrightarrow> x < of_int k - 1 / 2"
proof -
  define f where "f = \<lfloor>x\<rfloor>"
  define r where "r = x - of_int f"
  have r: "0 \<le> r" "r < 1" and x: "x = of_int f + r"
    unfolding r_def f_def by linarith+
  consider "r < 1 / 2" | "1 / 2 < r" | "r = 1 / 2" by linarith
  then show ?thesis
  proof cases
    case 1
    then have "round_ties_even x = f"
      by (simp add: round_ties_even_def Let_def f_def r_def)
    moreover have "f < k \<longleftrightarrow> x < of_int k - 1 / 2"
    proof
      assume "f < k"
      then have "of_int f \<le> (of_int k :: rat) - 1" by linarith
      with 1 x show "x < of_int k - 1 / 2" by linarith
    next
      assume "x < of_int k - 1 / 2"
      with x r have "(of_int f :: rat) < of_int k" by linarith
      then show "f < k" by simp
    qed
    ultimately show ?thesis by simp
  next
    case 2
    then have "round_ties_even x = f + 1"
      by (simp add: round_ties_even_def Let_def f_def r_def)
    moreover have "f + 1 < k \<longleftrightarrow> x < of_int k - 1 / 2"
    proof
      assume "f + 1 < k"
      then have "of_int f \<le> (of_int k :: rat) - 2" by linarith
      with r x show "x < of_int k - 1 / 2" by linarith
    next
      assume "x < of_int k - 1 / 2"
      with x 2 have "(of_int f :: rat) + 1 < of_int k" by linarith
      then have "(of_int (f + 1) :: rat) < of_int k" by simp
      then show "f + 1 < k" by (simp only: of_int_less_iff)
    qed
    ultimately show ?thesis by simp
  next
    case 3
    have xf: "x = of_int f + 1 / 2" using x 3 by simp
    have "x < of_int k - 1 / 2 \<longleftrightarrow> (of_int (f + 1) :: rat) < of_int k"
      unfolding xf by simp linarith
    then have iff: "x < of_int k - 1 / 2 \<longleftrightarrow> f + 1 < k"
      by (simp only: of_int_less_iff)
    show ?thesis
    proof (cases "even f")
      case True
      with 3 have "round_ties_even x = f"
        by (simp add: round_ties_even_def Let_def f_def r_def)
      moreover from True assms have "f < k \<longleftrightarrow> f + 1 < k" by presburger
      ultimately show ?thesis using iff by simp
    next
      case False
      with 3 have "round_ties_even x = f + 1"
        by (simp add: round_ties_even_def Let_def f_def r_def)
      then show ?thesis using iff by simp
    qed
  qed
qed

lemma binade_bounds:
  assumes "1 \<le> v"
  shows "2 powi binade v \<le> v" and "v < 2 powi (binade v + 1)" and "0 \<le> binade v"
proof -
  define n where "n = nat \<lfloor>v\<rfloor>"
  from assms have fl: "1 \<le> \<lfloor>v\<rfloor>" by (simp add: le_floor_iff)
  then have n: "0 < n" and nv: "int n = \<lfloor>v\<rfloor>" by (simp_all add: n_def)
  from bit_length_bounds[OF n]
  have lo: "2 ^ (bit_length n - 1) \<le> n" and hi: "n < 2 ^ bit_length n" by simp_all
  from bit_length_pos[OF n] obtain k where k: "bit_length n = Suc k"
    by (cases "bit_length n") simp_all
  have b: "binade v = int k"
    using assms by (simp add: binade_def n_def[symmetric] k)
  have "(of_nat (2 ^ k) :: rat) \<le> of_nat n"
    using lo k by simp
  also have "(of_nat n :: rat) = of_int \<lfloor>v\<rfloor>"
    using nv by (metis of_int_of_nat_eq)
  also have "\<dots> \<le> v" by simp
  finally show "2 powi binade v \<le> v" by (simp add: b)
  have "v < of_int \<lfloor>v\<rfloor> + 1" by linarith
  also have "\<dots> = of_nat (n + 1)"
    using nv by (metis of_int_of_nat_eq of_nat_Suc Suc_eq_plus1 add.commute)
  also have "\<dots> \<le> of_nat (2 ^ Suc k)"
    using hi k by (simp only: of_nat_le_iff)
  finally have "v < 2 ^ Suc k" by simp
  moreover have "int k + 1 = int (Suc k)" by simp
  ultimately show "v < 2 powi (binade v + 1)"
    unfolding b by (simp only: power_int_of_nat)
  show "0 \<le> binade v" by (simp add: b)
qed

lemma binade_below_one: "v < 1 \<Longrightarrow> binade v \<le> 0"
  by (simp add: binade_def)

lemma two_powi_less_cancel: "(2::rat) powi a < 2 powi b \<Longrightarrow> a < b"
proof (rule ccontr)
  assume l: "(2::rat) powi a < 2 powi b" and "\<not> a < b"
  then have "b \<le> a" by simp
  then have "(2::rat) powi b \<le> 2 powi a" by (rule power_int_increasing) simp
  with l show False by simp
qed

lemma to_double_not_NaN [simp]: "to_double v \<noteq> JNaN"
  by (simp add: to_double_def Let_def)

lemma to_double_less_16: "js_less (to_double v) (JNum 16) \<longleftrightarrow> v < 16 - 1 / 2 ^ 50"
proof -
  define e where "e = max (binade \<bar>v\<bar>) (- 1022)"
  define ulp :: rat where "ulp = 2 powi (e - 52)"
  define k where "k = round_ties_even (v / ulp)"
  define d where "d = of_int k * ulp"
  define huge :: rat where "huge = 2 powi 1024"
  have ulp: "0 < ulp" by (simp add: ulp_def)
  have huge: "16 < huge"
  proof -
    have "(2::rat) powi 5 \<le> 2 powi 1024" by (rule power_int_increasing) simp_all
    then show ?thesis by (simp add: huge_def)
  qed
  have td: "v \<noteq> 0 \<Longrightarrow> to_double v =
      (if huge \<le> \<bar>d\<bar> then (if 0 < v then JPosInfinity else JNegInfinity) else JNum d)"
    by (simp add: to_double_def Let_def e_def ulp_def k_def d_def huge_def)
  consider "v = 0" | "v < 0" | "16 \<le> v" | "0 < v" "v < 8" | "8 \<le> v" "v < 16" by linarith
  then show ?thesis
  proof cases
    case 1
    then show ?thesis by (simp add: to_double_def js_less_def)
  next
    case 2
    then have "v / ulp \<le> of_int 0" using ulp by (simp add: divide_le_0_iff)
    then have "k \<le> 0" unfolding k_def by (rule round_ties_even_le)
    then have "d \<le> 0" using ulp by (simp add: d_def mult_le_0_iff)
    with 2 td show ?thesis by (simp add: js_less_def)
  next
    case 3
    then have v1: "1 \<le> v" and av: "\<bar>v\<bar> = v" by simp_all
    note b = binade_bounds[OF v1]
    have e: "e = binade v" using b(3) by (simp add: e_def av)
    have "(2::rat) powi 4 \<le> v" using 3 by simp
    also note b(2)
    finally have "4 < binade v + 1" by (rule two_powi_less_cancel)
    then have e4: "4 \<le> e" by (simp add: e)
    have pe: "(2::rat) powi e = 2 ^ 52 * ulp"
      by (simp add: ulp_def power_int_diff)
    have "(2::rat) powi 4 \<le> 2 powi e" using e4 by (rule power_int_increasing) simp
    then have p16: "16 \<le> (2::rat) powi e" by simp
    have "of_int (2 ^ 52) * ulp \<le> v" using b(1) pe by (simp add: e)
    then have "of_int (2 ^ 52) \<le> v / ulp" using ulp by (simp add: pos_le_divide_eq)
    then have "2 ^ 52 \<le> k" unfolding k_def by (rule round_ties_even_ge)
    then have "(of_int (2 ^ 52) :: rat) \<le> of_int k" by (simp only: of_int_le_iff)
    then have "of_int (2 ^ 52) * ulp \<le> d" using ulp by (simp add: d_def)
    with pe p16 have "16 \<le> d" by simp
    with 3 td show ?thesis by (simp add: js_less_def)
  next
    case 4
    have e2: "e \<le> 2"
    proof (cases "1 \<le> v")
      case True
      note b = binade_bounds[OF True]
      from b(1) 4 have "(2::rat) powi binade v < 2 powi 3" by simp
      then have "binade v < 3" by (rule two_powi_less_cancel)
      with 4 show ?thesis by (simp add: e_def)
    next
      case False
      with 4 have "binade \<bar>v\<bar> \<le> 0" by (simp add: binade_below_one)
      then show ?thesis by (simp add: e_def)
    qed
    define j where "j = nat (55 - e)"
    have "(2::rat) powi 3 = 2 powi (55 - e) * ulp"
      by (simp add: ulp_def power_int_add[symmetric])
    also have "(2::rat) powi (55 - e) = 2 ^ j"
      using e2 by (simp add: j_def power_int_def)
    finally have eight: "(8::rat) = of_int (2 ^ j) * ulp" by simp
    have "v / ulp \<le> 8 / ulp" using 4 ulp by (simp add: divide_le_cancel)
    also have "8 / ulp = of_int (2 ^ j)" using ulp by (simp add: eight)
    finally have "k \<le> 2 ^ j" unfolding k_def by (rule round_ties_even_le)
    then have "(of_int k :: rat) \<le> of_int (2 ^ j)" by (simp only: of_int_le_iff)
    then have "d \<le> of_int (2 ^ j) * ulp" using ulp by (simp add: d_def)
    with eight have d8: "d \<le> 8" by simp
    have "of_int 0 \<le> v / ulp" using 4 ulp by simp
    then have "0 \<le> k" unfolding k_def by (rule round_ties_even_ge)
    then have d0: "0 \<le> d" using ulp by (simp add: d_def)
    from d0 d8 huge have "\<not> huge \<le> \<bar>d\<bar>" by simp
    with 4 td d8 show ?thesis by (simp add: js_less_def)
  next
    case 5
    then have v1: "1 \<le> v" and av: "\<bar>v\<bar> = v" by simp_all
    note b = binade_bounds[OF v1]
    from b(1) 5 have "(2::rat) powi binade v < 2 powi 4" by simp
    then have "binade v < 4" by (rule two_powi_less_cancel)
    moreover have "(2::rat) powi 3 \<le> v" using 5 by simp
    with b(2) have "(2::rat) powi 3 < 2 powi (binade v + 1)" by simp
    then have "3 < binade v + 1" by (rule two_powi_less_cancel)
    ultimately have "binade v = 3" by simp
    then have e: "e = 3" by (simp add: e_def av)
    have ulp49: "ulp = 1 / 2 ^ 49" by (simp add: ulp_def e power_int_def inverse_eq_divide power_one_over)
    have x: "v / ulp = v * 2 ^ 49" by (simp add: ulp49)
    have "of_int 0 \<le> v / ulp" using 5 ulp by simp
    then have k0: "0 \<le> k" unfolding k_def by (rule round_ties_even_ge)
    have "v / ulp \<le> of_int (2 ^ 53)" using 5 by (simp add: x)
    then have k53: "k \<le> 2 ^ 53" unfolding k_def by (rule round_ties_even_le)
    have dk: "d = of_int k / 2 ^ 49" by (simp add: d_def ulp49)
    have "0 \<le> d" using k0 by (simp add: dk)
    moreover have "d \<le> 16"
    proof -
      from k53 have "(of_int k :: rat) \<le> of_int (2 ^ 53)" by (simp only: of_int_le_iff)
      then show ?thesis by (simp add: dk)
    qed
    ultimately have "\<not> huge \<le> \<bar>d\<bar>" using huge by simp
    with 5 td have "js_less (to_double v) (JNum 16) \<longleftrightarrow> d < 16" by (simp add: js_less_def)
    also have "d < 16 \<longleftrightarrow> (of_int k :: rat) < of_int (2 ^ 53)" by (simp add: dk)
    also have "\<dots> \<longleftrightarrow> k < 2 ^ 53" by (simp only: of_int_less_iff)
    also have "\<dots> \<longleftrightarrow> v / ulp < of_int (2 ^ 53) - 1 / 2"
      unfolding k_def by (rule round_ties_even_less_even) simp
    also have "\<dots> \<longleftrightarrow> v < 16 - 1 / 2 ^ 50" by (simp add: x field_simps)
    finally show ?thesis .
  qed
qed

lemma digit_not_space: "is_digit c \<Longrightarrow> \<not> is_space c"
  by (auto simp: is_digit_def is_space_def in_range_def code_unit_def)

lemma trim_space_numeric: "numeric_text s \<Longrightarrow> trim_space s = s"
proof -
  assume n: "numeric_text s"
  then have ne: "s \<noteq> []" and d: "\<forall>c\<in>set s. is_digit c"
    by (auto simp: numeric_text_def list_all_iff)
  from ne d have "is_digit (hd s)" "is_digit (last s)"
    by simp_all
  then have "\<not> is_space (hd s)" "\<not> is_space (last s)"
    by (simp_all add: digit_not_space)
  then have "dropWhile is_space s = s" "dropWhile is_space (rev s) = rev s"
    using ne by (simp_all add: dropWhile_eq_self_iff hd_rev)
  then show ?thesis by (simp add: trim_space_def)
qed

lemma dropWhile_all: "list_all P a \<Longrightarrow> dropWhile P (a @ t) = dropWhile P t"
  by (induction a) simp_all

lemma trim_space_pad:
  assumes "list_all is_space a" and "list_all is_space b"
  shows "trim_space (a @ s @ b) = trim_space s"
proof -
  have 1: "dropWhile is_space (a @ s @ b) = dropWhile is_space (s @ b)"
    using assms(1) by (rule dropWhile_all)
  have rb: "list_all is_space (rev b)" using assms(2) by (simp add: list_all_iff)
  show ?thesis
  proof (cases "list_all is_space s")
    case True
    then have "list_all is_space (s @ b)" using assms(2) by simp
    then have e: "dropWhile is_space (s @ b) = []" "dropWhile is_space s = []"
      using True by (simp_all add: list_all_iff)
    show ?thesis unfolding trim_space_def 1 e by simp
  next
    case False
    then have "dropWhile is_space (s @ b) = dropWhile is_space s @ b"
      by (simp add: dropWhile_append1 list_all_iff) (metis dropWhile_append1)
    then show ?thesis
      by (simp add: trim_space_def 1 dropWhile_all[OF rb])
  qed
qed

lemma js_Number_pad:
  "list_all is_space a \<Longrightarrow> list_all is_space b \<Longrightarrow> js_Number (a @ s @ b) = js_Number s"
  by (simp add: js_Number_def trim_space_pad)

lemma numeric_text_parse:
  assumes "numeric_text s"
  shows "takeWhile is_digit s = s" and "dropWhile is_digit s = []" and "s \<noteq> ''Infinity''"
    and "\<not> prefix [c, d] s \<or> is_digit d"
  using assms
  by (auto simp: numeric_text_def list_all_iff takeWhile_eq_all_conv prefix_def
        is_digit_def in_range_def code_unit_def)

lemma js_Number_numeric:
  assumes "numeric_text s"
  shows "js_Number s = to_double (of_nat (decimal_value s))"
proof -
  have nd: "\<not> is_digit CHR ''x''" "\<not> is_digit CHR ''X''" "\<not> is_digit CHR ''o''"
    "\<not> is_digit CHR ''O''" "\<not> is_digit CHR ''b''" "\<not> is_digit CHR ''B''"
    "\<not> is_digit CHR ''+''" "\<not> is_digit CHR ''-''"
    by (simp_all add: is_digit_def in_range_def code_unit_def)
  from assms obtain c t where s: "s = c # t" and c: "is_digit c"
    by (cases s) (auto simp: numeric_text_def)
  have p: "\<not> prefix [a, x] s" if "\<not> is_digit x" for a x
    using numeric_text_parse(4)[OF assms, of a x] that by simp
  have sign: "c \<noteq> CHR ''+''" "c \<noteq> CHR ''-''" using c nd by auto
  have "js_Number s = decimal_literal s"
    using assms by (simp add: js_Number_def trim_space_numeric Let_def p nd numeric_text_def)
  also have "\<dots> = unsigned_literal False s"
    using sign by (simp add: decimal_literal_def s)
  also have "\<dots> = to_double (of_nat (decimal_value s))"
    using assms
    by (simp add: unsigned_literal_def unsigned_decimal_def numeric_text_parse[OF assms]
          exponent_part_def Let_def numeric_text_def)
  finally show ?thesis .
qed

lemma less_16_numeric:
  assumes "numeric_text s"
  shows "js_less (js_Number s) (JNum 16) \<longleftrightarrow> decimal_value s < 16"
proof -
  have "(of_nat (decimal_value s) :: rat) < 16 - 1 / 2 ^ 50 \<longleftrightarrow> decimal_value s < 16"
  proof
    assume a: "(of_nat (decimal_value s) :: rat) < 16 - 1 / 2 ^ 50"
    have "(16::rat) - 1 / 2 ^ 50 < of_nat 16" by simp
    with a have "(of_nat (decimal_value s) :: rat) < of_nat 16" by (rule less_trans)
    then show "decimal_value s < 16" by (simp only: of_nat_less_iff)
  next
    assume "decimal_value s < 16"
    then have "decimal_value s \<le> 15" by simp
    then have "(of_nat (decimal_value s) :: rat) \<le> of_nat 15" by (simp only: of_nat_le_iff)
    then show "(of_nat (decimal_value s) :: rat) < 16 - 1 / 2 ^ 50" by simp
  qed
  then show ?thesis by (simp add: js_Number_numeric[OF assms] to_double_less_16)
qed

lemma js_less_simps:
  "js_less (JNum a) (JNum b) = (a < b)"
  "js_less JNegInfinity (JNum b)" "\<not> js_less JPosInfinity y" "\<not> js_less JNaN y"
  by (simp_all add: js_less_def split: js_number.splits)

lemmas number_defs =
  js_Number_def trim_space_def is_space_def code_unit_def decimal_literal_def unsigned_literal_def
  unsigned_decimal_def exponent_part_def decimal_value_def digit_value_def numeric_text_def
  is_digit_def in_range_def radix_literal_def is_hex_digit_def radix_value_def
  radix_digit_value_def Let_def

lemma Number_below_16:
  "js_less (js_Number ''14'') (JNum 16)"
  "js_less (js_Number '' 14 '') (JNum 16)"
  "js_less (js_Number '''') (JNum 16)"
  "js_less (js_Number ''-3'') (JNum 16)"
  "js_less (js_Number ''15.5'') (JNum 16)"
  "js_less (js_Number ''1e1'') (JNum 16)"
  "js_less (js_Number ''0x0F'') (JNum 16)"
  "js_less (js_Number ''.5'') (JNum 16)"
  "js_less (js_Number ''-Infinity'') (JNum 16)"
  by (simp_all add: number_defs to_double_less_16 js_less_simps power_int_def power_one_over)

lemma Number_not_below_16:
  "\<not> js_less (js_Number ''16'') (JNum 16)"
  "\<not> js_less (js_Number ''16.0'') (JNum 16)"
  "\<not> js_less (js_Number ''1.6e1'') (JNum 16)"
  "\<not> js_less (js_Number ''0x10'') (JNum 16)"
  "\<not> js_less (js_Number ''21'') (JNum 16)"
  "\<not> js_less (js_Number ''Infinity'') (JNum 16)"
  "\<not> js_less (js_Number ''15.9999999999999999999'') (JNum 16)"
  by (simp_all add: number_defs to_double_less_16 js_less_simps power_int_def power_one_over)

lemma Number_NaN:
  "js_Number ''L'' = JNaN" "js_Number ''abc'' = JNaN" "js_Number ''1 5'' = JNaN"
  "js_Number ''0x'' = JNaN" "js_Number ''-0x10'' = JNaN" "js_Number ''5e'' = JNaN"
  "js_Number ''.'' = JNaN"
  by (simp_all add: number_defs)

subsection \<open>Updating the manifest\<close>

lemma decimal_16: "numeric_text ''16''" "decimal_value ''16'' = 16"
  by (simp_all add: numeric_text_def decimal_value_def digit_value_def is_digit_def in_range_def
        code_unit_def)

lemma updated_manifest_eq:
  "updated_manifest m =
     m \<lparr> minSdkVersion := (if js_less (js_Number (minSdkVersion m)) (JNum 16) then ''16''
                           else minSdkVersion m),
         debuggable := False \<rparr>"
  unfolding updated_manifest_def raise_min_sdk_def show_nat_16
  by (simp add: MIN_SDK_VERSION_def Let_def)

lemma sixteen_not_below: "\<not> js_less (js_Number ''16'') (JNum 16)"
  by (simp add: less_16_numeric decimal_16)

lemma updated_not_below:
  "\<not> js_less (js_Number (minSdkVersion (updated_manifest m))) (JNum 16)"
  by (simp add: updated_manifest_eq sixteen_not_below)

lemma updated_idem: "updated_manifest (updated_manifest m) = updated_manifest m"
proof -
  have "updated_manifest (updated_manifest m) =
          updated_manifest m \<lparr> minSdkVersion := minSdkVersion (updated_manifest m),
                                 debuggable := False \<rparr>"
    by (subst updated_manifest_eq) (simp add: updated_not_below)
  also have "\<dots> = updated_manifest m"
    by (simp add: updated_manifest_eq)
  finally show ?thesis .
qed

lemma js_greater_equal_iff:
  "x \<noteq> JNaN \<Longrightarrow> js_greater_equal x (JNum b) \<longleftrightarrow> \<not> js_less x (JNum b)"
  by (cases x) (auto simp: js_greater_equal_def js_less_def)

text \<open>
  Claim C3, as the code has it. When the project has a manifest, \<open>update\<close> writes it once,
  at the path it was loaded from, as \<open>updated_manifest\<close> of what it loaded: the loaded
  manifest with the debuggable flag false and with the minimum SDK version 16 when
  \<^verbatim>\<open>Number\<close> of the declared one is below 16, and the declared one otherwise. \<^verbatim>\<open>Number\<close>
  never reads the minimum written as below 16, and reads it as at least 16 whenever it
  reads the declared one as a number at all; a declared minimum that is a decimal
  numeral is a numeral of at least 16 afterwards, changed only when it was below 16.
  A declared minimum that \<^verbatim>\<open>Number\<close> reads as \<^verbatim>\<open>NaN\<close> stays as declared. Updating the
  updated manifest changes nothing: a second \<open>update\<close> with the same options, on the
  manifest the first one wrote, writes that manifest again.
\<close>

theorem update_manifest_idempotent:
  assumes "loadManifest h (manifest_path projectPath) = Some m"
  shows "manifest_writes (snd (update h projectPath options))
           = [(manifest_path projectPath, updated_manifest m)] \<and>
         updated_manifest m =
           m \<lparr> minSdkVersion := (if js_less (js_Number (minSdkVersion m)) (JNum 16) then ''16''
                                 else minSdkVersion m),
               debuggable := False \<rparr> \<and>
         debuggable (updated_manifest m) = False \<and>
         \<not> js_less (js_Number (minSdkVersion (updated_manifest m))) (JNum 16) \<and>
         (js_Number (minSdkVersion m) \<noteq> JNaN \<longrightarrow>
            js_greater_equal (js_Number (minSdkVersion (updated_manifest m))) (JNum 16)) \<and>
         (js_Number (minSdkVersion m) = JNaN \<longrightarrow>
            minSdkVersion (updated_manifest m) = minSdkVersion m) \<and>
         (numeric_text (minSdkVersion m) \<longrightarrow>
            numeric_text (minSdkVersion (updated_manifest m)) \<and>
            16 \<le> decimal_value (minSdkVersion (updated_manifest m)) \<and>
            minSdkVersion (updated_manifest m)
              = (if decimal_value (minSdkVersion m) < 16 then ''16'' else minSdkVersion m)) \<and>
         updated_manifest (updated_manifest m) = updated_manifest m \<and>
         (\<forall>h'. loadManifest h' (manifest_path projectPath) = Some (updated_manifest m) \<longrightarrow>
            manifest_writes (snd (update h' projectPath options))
              = [(manifest_path projectPath, updated_manifest m)])"
proof -
  have w: "manifest_writes (snd (update h projectPath options))
           = [(manifest_path projectPath, updated_manifest m)]"
    using assms by (simp add: update_manifest_writes manifest_path_def)
  have d: "debuggable (updated_manifest m) = False"
    by (simp add: updated_manifest_eq)
  have ge: "js_Number (minSdkVersion m) \<noteq> JNaN \<longrightarrow>
            js_greater_equal (js_Number (minSdkVersion (updated_manifest m))) (JNum 16)"
  proof
    assume n: "js_Number (minSdkVersion m) \<noteq> JNaN"
    have "js_Number (minSdkVersion (updated_manifest m)) \<noteq> JNaN"
      using n by (simp add: updated_manifest_eq js_Number_numeric decimal_16)
    then show "js_greater_equal (js_Number (minSdkVersion (updated_manifest m))) (JNum 16)"
      by (simp add: js_greater_equal_iff updated_not_below)
  qed
  have nan: "js_Number (minSdkVersion m) = JNaN \<longrightarrow>
            minSdkVersion (updated_manifest m) = minSdkVersion m"
    by (simp add: updated_manifest_eq js_less_simps)
  have n: "numeric_text (minSdkVersion m) \<longrightarrow>
            numeric_text (minSdkVersion (updated_manifest m)) \<and>
            16 \<le> decimal_value (minSdkVersion (updated_manifest m)) \<and>
            minSdkVersion (updated_manifest m)
              = (if decimal_value (minSdkVersion m) < 16 then ''16'' else minSdkVersion m)"
    by (auto simp: updated_manifest_eq less_16_numeric decimal_16)
  have again: "\<forall>h'. loadManifest h' (manifest_path projectPath) = Some (updated_manifest m) \<longrightarrow>
            manifest_writes (snd (update h' projectPath options))
              = [(manifest_path projectPath, updated_manifest m)]"
    by (simp add: update_manifest_writes manifest_path_def updated_idem)
  from w updated_manifest_eq[of m] d updated_not_below[of m] ge nan n updated_idem[of m] again
  show ?thesis by blast
qed

lemma existing_project_answers:
  "loadManifest existing_project_host p =
      (if p = ''platforms/android/AndroidManifest.xml'' then Some old_manifest else None)"
  "is_directory existing_project_host p = (p = ''platforms/android'')"
  "shell_ls existing_project_host p =
      (if p = ''platforms/android/libs/cordova-*.jar''
       then [''platforms/android/libs/cordova-5.0.0.jar''] else [])"
  by (simp_all add: existing_project_host_def)

lemma project_declaring_manifest:
  "loadManifest (project_declaring v) (manifest_path ''platforms/android'')
     = Some (old_manifest \<lparr> minSdkVersion := v \<rparr>)"
  by (simp add: project_declaring_def manifest_path_def path_join_def)

theorem update_manifest_idempotent_witness:
  "manifest_writes (snd (update (project_declaring ''14'') ''platforms/android'' None))
     = [(''platforms/android/AndroidManifest.xml'',
         old_manifest \<lparr> minSdkVersion := ''16'', debuggable := False \<rparr>)] \<and>
   manifest_writes (snd (update (project_declaring '' 14 '') ''platforms/android'' None))
     = [(''platforms/android/AndroidManifest.xml'',
         old_manifest \<lparr> minSdkVersion := ''16'', debuggable := False \<rparr>)] \<and>
   manifest_writes (snd (update (project_declaring ''15.5'') ''platforms/android'' None))
     = [(''platforms/android/AndroidManifest.xml'',
         old_manifest \<lparr> minSdkVersion := ''16'', debuggable := False \<rparr>)] \<and>
   manifest_writes (snd (update (project_declaring ''1e1'') ''platforms/android'' None))
     = [(''platforms/android/AndroidManifest.xml'',
         old_manifest \<lparr> minSdkVersion := ''16'', debuggable := False \<rparr>)] \<and>
   manifest_writes (snd (update (project_declaring ''0x0F'') ''platforms/android'' None))
     = [(''platforms/android/AndroidManifest.xml'',
         old_manifest \<lparr> minSdkVersion := ''16'', debuggable := False \<rparr>)] \<and>
   manifest_writes (snd (update (project_declaring ''16.0'') ''platforms/android'' None))
     = [(''platforms/android/AndroidManifest.xml'',
         old_manifest \<lparr> minSdkVersion := ''16.0'', debuggable := False \<rparr>)] \<and>
   manifest_writes (snd (update (project_declaring ''21'') ''platforms/android'' None))
     = [(''platforms/android/AndroidManifest.xml'',
         old_manifest \<lparr> minSdkVersion := ''21'', debuggable := False \<rparr>)] \<and>
   manifest_writes (snd (update (project_declaring ''16'') ''platforms/android'' None))
     = [(''platforms/android/AndroidManifest.xml'',
         old_manifest \<lparr> minSdkVersion := ''16'', debuggable := False \<rparr>)] \<and>
   updated_manifest (old_manifest \<lparr> minSdkVersion := ''16'', debuggable := False \<rparr>)
     = old_manifest \<lparr> minSdkVersion := ''16'', debuggable := False \<rparr>"
proof -
  have w: "manifest_writes (snd (update (project_declaring v) ''platforms/android'' None))
             = [(''platforms/android/AndroidManifest.xml'',
                 old_manifest \<lparr> minSdkVersion := (if js_less (js_Number v) (JNum 16) then ''16'' else v),
                                debuggable := False \<rparr>)]"
      and i: "updated_manifest (updated_manifest (old_manifest \<lparr> minSdkVersion := v \<rparr>))
             = updated_manifest (old_manifest \<lparr> minSdkVersion := v \<rparr>)" for v
  proof -
    note t = update_manifest_idempotent
               [OF project_declaring_manifest, where v1 = v and options = None]
    from t have "manifest_writes (snd (update (project_declaring v) ''platforms/android'' None))
             = [(manifest_path ''platforms/android'',
                 updated_manifest (old_manifest \<lparr> minSdkVersion := v \<rparr>))]"
      by (rule conjunct1)
    then show "manifest_writes (snd (update (project_declaring v) ''platforms/android'' None))
             = [(''platforms/android/AndroidManifest.xml'',
                 old_manifest \<lparr> minSdkVersion := (if js_less (js_Number v) (JNum 16) then ''16'' else v),
                                debuggable := False \<rparr>)]"
      by (simp add: manifest_path_def path_join_def updated_manifest_eq)
    from t show "updated_manifest (updated_manifest (old_manifest \<lparr> minSdkVersion := v \<rparr>))
             = updated_manifest (old_manifest \<lparr> minSdkVersion := v \<rparr>)"
      by blast
  qed
  have u: "updated_manifest (old_manifest \<lparr> minSdkVersion := ''14'' \<rparr>)
             = old_manifest \<lparr> minSdkVersion := ''16'', debuggable := False \<rparr>"
    by (simp add: updated_manifest_eq Number_below_16)
  from w[of "''14''"] w[of "'' 14 ''"] w[of "''15.5''"] w[of "''1e1''"] w[of "''0x0F''"]
       w[of "''16.0''"] w[of "''21''"] w[of "''16''"] i[of "''14''"]
  show ?thesis
    unfolding u by (simp add: Number_below_16 Number_not_below_16)
qed

text \<open>
  A project whose manifest declares the codename of a platform as its minimum: \<^verbatim>\<open>Number\<close>
  reads it as \<^verbatim>\<open>NaN\<close>, which is not below 16, so \<open>update\<close> writes the manifest with the
  minimum as declared, and the minimum written is not at least 16.
\<close>

theorem update_leaves_codename_minimum:
  "manifest_writes (snd (update (project_declaring ''L'') ''platforms/android'' None))
     = [(''platforms/android/AndroidManifest.xml'',
         old_manifest \<lparr> minSdkVersion := ''L'', debuggable := False \<rparr>)] \<and>
   js_Number ''L'' = JNaN \<and>
   \<not> js_greater_equal (js_Number ''L'') (JNum 16)"
  by (simp add: update_manifest_writes project_declaring_def path_join_def updated_manifest_eq
        Number_NaN js_less_simps js_greater_equal_def)

subsection \<open>What updating leaves alone\<close>

lemma under_refl [simp]: "under a a"
  by (simp add: under_def)

lemma under_trans: "under a t \<Longrightarrow> under t q \<Longrightarrow> under a q"
proof -
  assume at: "under a t" and tq: "under t q"
  show ?thesis
  proof (cases "t = a \<or> q = t")
    case True
    with at tq show ?thesis by auto
  next
    case False
    with at tq have 1: "prefix (a @ ''/'') t" and 2: "prefix (t @ ''/'') q"
      by (auto simp: under_def)
    have "prefix t (t @ ''/'')" by simp
    with 1 2 have "prefix (a @ ''/'') q"
      by (meson prefix_order.trans)
    then show ?thesis by (simp add: under_def)
  qed
qed

lemma join_with_slash_nonempty: "x \<noteq> [] \<Longrightarrow> join_with_slash (x # ys) \<noteq> []"
  by (cases ys) simp_all

lemma path_join_nonempty [simp]: "x \<noteq> [] \<Longrightarrow> path_join (p # x # xs) \<noteq> []"
  by (simp add: path_join_def join_with_slash_nonempty)

lemma under_child: "t \<noteq> [] \<Longrightarrow> under t (path_join [t, x])"
  by (simp add: under_def path_join_def)

lemma in_area_child:
  "in_refreshed_area h p t \<Longrightarrow> t \<noteq> [] \<Longrightarrow> in_refreshed_area h p (path_join [t, x])"
  unfolding in_refreshed_area_def builder_area_def
  by (meson under_child under_trans)

lemma area_literals:
  "in_refreshed_area h p (path_join [p, ''assets'', ''www'', ''cordova.js''])"
  "in_refreshed_area h p (path_join [p, ''platform_www''])"
  "in_refreshed_area h p (path_join [p, ''libs''])"
  "in_refreshed_area h p (path_join [p, ''CordovaLib''])"
  "in_refreshed_area h p (path_join [p, ''cordova''])"
  "in_refreshed_area h p (path_join [p, ''build.gradle''])"
  "in_refreshed_area h p (path_join [p, ''project.properties''])"
  by (simp_all add: in_refreshed_area_def refreshed_areas_def)

lemma area_below:
  "in_refreshed_area h p (path_join [path_join [p, ''CordovaLib''], ''src''])"
  "in_refreshed_area h p (path_join [p, ''cordova'', ''lib'', ''check_reqs.js''])"
  "in_refreshed_area h p (path_join [p, ''cordova'', ''lib'', ''android_sdk_version.js''])"
  by (auto simp: in_refreshed_area_def refreshed_areas_def under_def path_join_def)

lemma basename_scripts:
  "basename (path_join [r, ''bin'', ''templates'', ''cordova'']) = ''cordova''"
  by (simp add: basename_def path_join_def)

lemma basename_build_gradle:
  "basename (path_join [path_join [r, ''bin'', ''templates'', ''project''], ''build.gradle'']) = ''build.gradle''"
  by (simp add: basename_def path_join_def)

lemma within_simps [simp]:
  "within_refreshed h p (Emit c msg)" "within_refreshed h p (ConsoleLog msg)"
  by (simp_all add: within_refreshed_def event_targets_def)

lemma within_cp_into:
  "in_refreshed_area h p dst \<Longrightarrow> dst \<noteq> [] \<Longrightarrow> within_refreshed h p (Fs (ShellCp flags src dst))"
  by (simp add: within_refreshed_def event_targets_def op_targets_def in_area_child)

lemma within_cp_project:
  "is_directory h p \<Longrightarrow> in_refreshed_area h p (path_join [p, basename src]) \<Longrightarrow>
   within_refreshed h p (Fs (ShellCp flags src p))"
  by (simp add: within_refreshed_def event_targets_def op_targets_def)

lemma within_target:
  "in_refreshed_area h p t \<Longrightarrow> within_refreshed h p (Fs (ShellMkdir flags t))"
  "in_refreshed_area h p t \<Longrightarrow> within_refreshed h p (Fs (ShellRm flags t))"
  "in_refreshed_area h p t \<Longrightarrow> within_refreshed h p (Fs (FsUnlink t))"
  "in_refreshed_area h p t \<Longrightarrow> within_refreshed h p (Fs (FsSymlink target t))"
  "in_refreshed_area h p t \<Longrightarrow> within_refreshed h p (Fs (FsWriteFile t content))"
  by (simp_all add: within_refreshed_def event_targets_def op_targets_def)

lemma within_shell [simp]:
  "list_all (within_refreshed h p) (snd (shell h fatal op)) = within_refreshed h p (Fs op)"
  "list_all (within_refreshed h p) (snd (fs_call h op)) = within_refreshed h p (Fs op)"
  by (simp_all add: shell_simps fs_call_simps)

lemma within_jars:
  assumes "\<forall>jar \<in> set (shell_ls h (path_join [p, ''libs'', ''cordova-*.jar''])).
             under (path_join [p, ''libs'']) jar"
  shows "list_all (within_refreshed h p) (snd (delete_old_jars h p))"
  unfolding delete_old_jars_def
proof (rule steps_map_list_all)
  fix jar assume "jar \<in> set (shell_ls h (path_join [p, ''libs'', ''cordova-*.jar'']))"
  with assms have "under (path_join [p, ''libs'']) jar" by blast
  then have "in_refreshed_area h p jar"
    by (auto simp: in_refreshed_area_def refreshed_areas_def)
  then show "list_all (within_refreshed h p)
        (snd (steps [console_log (''Deleting '' @ jar), shell h False (ShellRm ''-f'' jar)]))"
    by (auto intro!: steps_list_all simp: within_target console_log_simps)
qed

lemma within_copyJsAndLibrary:
  assumes "\<forall>jar \<in> set (shell_ls h (path_join [p, ''libs'', ''cordova-*.jar''])).
             under (path_join [p, ''libs'']) jar"
  shows "list_all (within_refreshed h p) (snd (copyJsAndLibrary h fatal p shared name))"
  unfolding copyJsAndLibrary_def Let_def getFrameworkDir_def
  using within_jars[OF assms]
  by (auto intro!: steps_list_all simp: within_target within_cp_into area_literals area_below)

lemma within_copyScripts:
  "is_directory h p \<Longrightarrow> list_all (within_refreshed h p) (snd (copyScripts h fatal p))"
  unfolding copyScripts_def Let_def
  by (auto intro!: steps_list_all
        simp: within_target within_cp_into within_cp_project basename_scripts
              area_literals area_below in_area_child)

lemma within_copyBuildRules:
  "is_directory h p \<Longrightarrow> list_all (within_refreshed h p) (snd (copyBuildRules h fatal p))"
  by (simp add: copyBuildRules_def Let_def within_cp_project basename_build_gradle area_literals)

lemma within_writeProjectProperties:
  "list_all (within_refreshed h p) (snd (writeProjectProperties h p t))"
  by (simp add: writeProjectProperties_def Let_def within_target area_literals throw_simps
        split: option.splits)

lemma within_prepBuildFiles:
  "list_all (within_refreshed h p) (snd (prepBuildFiles h p))"
proof -
  have "builder_area h p t"
    if "t \<in> set (builder_outputs h (path_resolve h [p, ''cordova/lib/builders/builders'']))" for t
    unfolding builder_area_def using that under_refl by blast
  then show ?thesis
    by (simp add: prepBuildFiles_def Let_def within_refreshed_def event_targets_def
          in_refreshed_area_def)
qed

lemma within_new_PlatformApi:
  "list_all (within_refreshed h p) (snd (new_PlatformApi h w d))"
  by (simp add: new_PlatformApi_def Api_def Let_def)

lemma packageId_updated [simp]: "packageId (updated_manifest m) = packageId m"
  by (simp add: updated_manifest_def Let_def)

lemma updatePlatform_events:
  assumes dir: "is_directory h p"
      and jars: "\<forall>jar \<in> set (shell_ls h (path_join [p, ''libs'', ''cordova-*.jar''])).
             under (path_join [p, ''libs'']) jar"
      and e: "e \<in> set (snd (updatePlatform h w p opts))"
  shows "within_refreshed h p e \<or>
         (\<exists>m. loadManifest h (manifest_path p) = Some m \<and>
              e = Fs (ManifestWrite (manifest_path p) (updated_manifest m)))"
proof -
  let ?rest = "\<lambda>m. steps
                  [copyJsAndLibrary h (shell_config_fatal h) p
                     (opt_link (case opts of None \<Rightarrow> no_options | Some x \<Rightarrow> x))
                     (activityName (updated_manifest m)),
                   copyScripts h (shell_config_fatal h) p,
                   copyBuildRules h (shell_config_fatal h) p,
                   writeProjectProperties h p (get_target h),
                   prepBuildFiles h p,
                   emit ''log'' (generateDoneMessage h ''update''
                      (opt_link (case opts of None \<Rightarrow> no_options | Some x \<Rightarrow> x)))]"
  have rest: "list_all (within_refreshed h p) (snd (?rest m))" for m
    by (rule steps_list_all)
       (simp add: within_copyJsAndLibrary[OF jars] within_copyScripts[OF dir]
          within_copyBuildRules[OF dir] within_writeProjectProperties within_prepBuildFiles
          emit_simps)
  have api: "list_all (within_refreshed h p) (snd (new_PlatformApi h w d))" for d
    by (rule within_new_PlatformApi)
  from e have "e \<in> set (snd (update h p opts)) \<or> (\<exists>d. e \<in> set (snd (new_PlatformApi h w d)))"
    by (auto simp: updatePlatform_def then_io_snd split: promise.splits)
  then show ?thesis
  proof
    assume in_update: "e \<in> set (snd (update h p opts))"
    show ?thesis
    proof (cases "loadManifest h (path_join [p, ''AndroidManifest.xml''])")
      case None
      with in_update show ?thesis by (simp add: update_trace)
    next
      case (Some m)
      with in_update have
        "e = Emit ''verbose'' (''Updating minSdkVersion to '' @ show_nat MIN_SDK_VERSION @
                                                   '' in AndroidManifest.xml'') \<or>
         e = Fs (ManifestWrite (manifest_path p) (updated_manifest m)) \<or>
         e \<in> set (snd (?rest m))"
        by (auto simp: update_trace manifest_path_def split: if_splits)
      with Some rest[of m] show ?thesis
        by (auto simp: manifest_path_def list_all_iff)
    qed
  next
    assume "\<exists>d. e \<in> set (snd (new_PlatformApi h w d))"
    with api show ?thesis by (auto simp: list_all_iff)
  qed
qed

lemma areas_apart:
  assumes "a \<in> set (refreshed_areas p)" and "under a q"
  shows "\<not> java_source p q" and "\<not> under (manifest_path p) q" and "\<not> under q (manifest_path p)"
  using assms
  by (auto simp: refreshed_areas_def java_source_def manifest_path_def under_def prefix_def
        path_join_def split: if_splits)


lemma sources_apart:
  "java_source p q \<Longrightarrow> \<not> under (manifest_path p) q"
  by (auto simp: java_source_def manifest_path_def under_def prefix_def path_join_def
        split: if_splits)

lemma touches_within:
  "within_refreshed h p e \<Longrightarrow> touches h e q \<Longrightarrow> in_refreshed_area h p q"
  unfolding within_refreshed_def touches_def in_refreshed_area_def builder_area_def
  by (meson under_trans)

text \<open>
  Claim C8. Let the destination be a directory and let the jar files that \<^verbatim>\<open>shell.ls\<close>
  lists for deletion lie in the project's \<^verbatim>\<open>libs\<close> directory. Then \<open>updatePlatform\<close>
  changes nothing outside the areas it refreshes and the manifest: whatever an
  operation of it touches lies in a refreshed area (the script, library and
  generated-file areas, and the builder's outputs), or is the project manifest, and
  then the operation is the write of the manifest that was loaded, with its package id
  as loaded. The project's Java sources, in either layout, lie in none of the script,
  library and generated-file areas and are not the manifest, and the manifest lies in
  none of these areas.
\<close>

theorem updatePlatform_frame:
  assumes "is_directory h projectPath"
      and "\<forall>jar \<in> set (shell_ls h (path_join [projectPath, ''libs'', ''cordova-*.jar''])).
             under (path_join [projectPath, ''libs'']) jar"
  shows "(\<forall>e \<in> set (snd (updatePlatform h w projectPath options)). \<forall>q. touches h e q \<longrightarrow>
            in_refreshed_area h projectPath q \<or>
            (under (manifest_path projectPath) q \<and>
             (\<exists>m. loadManifest h (manifest_path projectPath) = Some m \<and>
                  e = Fs (ManifestWrite (manifest_path projectPath) (updated_manifest m)) \<and>
                  packageId (updated_manifest m) = packageId m))) \<and>
         (\<forall>q. java_source projectPath q \<longrightarrow>
            \<not> (\<exists>a \<in> set (refreshed_areas projectPath). under a q) \<and>
            \<not> under (manifest_path projectPath) q) \<and>
         \<not> (\<exists>a \<in> set (refreshed_areas projectPath). under a (manifest_path projectPath))"
proof (intro conjI ballI allI impI)
  fix e q
  assume e: "e \<in> set (snd (updatePlatform h w projectPath options))" and t: "touches h e q"
  from updatePlatform_events[OF assms e]
  show "in_refreshed_area h projectPath q \<or>
        (under (manifest_path projectPath) q \<and>
         (\<exists>m. loadManifest h (manifest_path projectPath) = Some m \<and>
              e = Fs (ManifestWrite (manifest_path projectPath) (updated_manifest m)) \<and>
              packageId (updated_manifest m) = packageId m))"
  proof
    assume "within_refreshed h projectPath e"
    with t show ?thesis by (simp add: touches_within)
  next
    assume "\<exists>m. loadManifest h (manifest_path projectPath) = Some m \<and>
              e = Fs (ManifestWrite (manifest_path projectPath) (updated_manifest m))"
    then obtain m where m: "loadManifest h (manifest_path projectPath) = Some m"
        "e = Fs (ManifestWrite (manifest_path projectPath) (updated_manifest m))"
      by blast
    with t have "under (manifest_path projectPath) q"
      by (simp add: touches_def event_targets_def op_targets_def)
    with m show ?thesis by simp
  qed
next
  fix q assume "java_source projectPath q"
  then show "\<not> (\<exists>a \<in> set (refreshed_areas projectPath). under a q)"
    using areas_apart(1) by blast
next
  fix q assume "java_source projectPath q"
  then show "\<not> under (manifest_path projectPath) q" by (rule sources_apart)
next
  show "\<not> (\<exists>a \<in> set (refreshed_areas projectPath). under a (manifest_path projectPath))"
    using areas_apart(2) under_refl by blast
qed

theorem updatePlatform_frame_witness:
  "is_directory existing_project_host ''platforms/android'' \<and>
   list_all (under ''platforms/android/libs'')
     (shell_ls existing_project_host ''platforms/android/libs/cordova-*.jar'') \<and>
   java_source ''platforms/android'' ''platforms/android/src/com/example/App.java'' \<and>
   list_all (\<lambda>e. \<not> touches existing_project_host e ''platforms/android/src/com/example/App.java'')
     (snd (updatePlatform existing_project_host example_collaborators ''platforms/android'' None))"
proof -
  have d: "is_directory existing_project_host ''platforms/android''"
    by (simp add: existing_project_answers)
  have j: "\<forall>jar \<in> set (shell_ls existing_project_host
                          (path_join [''platforms/android'', ''libs'', ''cordova-*.jar''])).
             under (path_join [''platforms/android'', ''libs'']) jar"
    by (simp add: existing_project_answers path_join_def under_def)
  have s: "java_source ''platforms/android'' ''platforms/android/src/com/example/App.java''"
    by (simp add: java_source_def path_join_def under_def)
  have b: "\<not> builder_area existing_project_host ''platforms/android''
              ''platforms/android/src/com/example/App.java''"
    by (simp add: builder_area_def existing_project_host_def under_def)
  from updatePlatform_frame [OF d j, of example_collaborators None] s b
  have "\<forall>e \<in> set (snd (updatePlatform existing_project_host example_collaborators
                           ''platforms/android'' None)).
          \<not> touches existing_project_host e ''platforms/android/src/com/example/App.java''"
    unfolding in_refreshed_area_def by blast
  with d s show ?thesis
    by (simp add: list_all_iff existing_project_answers under_def)
qed

end
